theory Spec2Isabelle
  imports Complex_Main
begin

section \<open>Data model\<close>

text \<open>
  The tables of \<^verbatim>\<open>models/item.py\<close>, \<^verbatim>\<open>models/technical_report.py\<close> and
  \<^verbatim>\<open>models/order.py\<close>. Primary keys and quantities are Python integers (\<open>int\<close>),
  \<^verbatim>\<open>Decimal\<close> prices are exact rationals. Columns that no operation below reads
  (timestamps, the category of an item) are left out. Record fields are global
  constants, so a column name that two tables share carries a prefix in one of them.
\<close>

datatype OrderStatus = PENDING | IN_PROGRESS | COMPLETED | CANCELLED

record Item =
  item_name :: string
  sku :: string
  price :: rat
  stock :: int

record TechnicalReport =
  report_id :: int
  title :: string
  description :: string
  diagnosis :: "string option"
  recommendations :: "string option"
  created_by_id :: "int option"

record Order =
  order_id :: int
  request_id :: string
  technical_report_id :: int
  status :: OrderStatus
  image_url :: "string option"

record OrderItem =
  oi_id :: int
  oi_order_id :: int
  oi_item_id :: int
  quantity :: int
  unit_price :: rat

text \<open>
  The database: the item table is keyed by its primary key, the other tables are lists
  of rows in insertion order.
\<close>

record tables =
  reports :: "TechnicalReport list"
  orders :: "Order list"
  order_items :: "OrderItem list"
  items :: "int \<rightharpoonup> Item"

text \<open>
  A SQLAlchemy session (\<^verbatim>\<open>autocommit=False\<close>): what is committed, and what the
  open transaction sees. \<^verbatim>\<open>db.commit()\<close> makes the working copy durable,
  \<^verbatim>\<open>db.rollback()\<close> throws it away. ORM objects are references into the working copy
  (the identity map): reading an attribute of an object after a commit reads the row as
  it is then.
\<close>

record session =
  committed :: tables
  working :: tables

definition open_session :: "tables \<Rightarrow> session" where
  "open_session t = \<lparr>committed = t, working = t\<rparr>"

definition commit :: "session \<Rightarrow> session" where
  "commit s = s\<lparr>committed := working s\<rparr>"

definition rollback :: "session \<Rightarrow> session" where
  "rollback s = s\<lparr>working := committed s\<rparr>"

text \<open>
  What a write to the store can raise: \<^verbatim>\<open>IntegrityError\<close>, or any other
  \<^verbatim>\<open>SQLAlchemyError\<close>.
\<close>

datatype fault = IntegrityError | SQLAlchemyError

text \<open>The request bodies of \<^verbatim>\<open>schemas/order.py\<close>.\<close>

record TechnicalReportCreate =
  tr_title :: string
  tr_description :: string
  tr_diagnosis :: "string option"
  tr_recommendations :: "string option"

record OrderItemCreate =
  item_id :: int
  req_quantity :: int

record OrderCreate =
  req_request_id :: string
  technical_report :: TechnicalReportCreate
  req_items :: "OrderItemCreate list"
  image_base64 :: "string option"

text \<open>
  The entries of \<^verbatim>\<open>order_items_data\<close>. \<^verbatim>\<open>"item"\<close> holds the ORM object, a
  reference to the row (here its key); \<^verbatim>\<open>"unit_price"\<close> holds the value of
  \<^verbatim>\<open>db_item.price\<close> read during validation.
\<close>

record item_data =
  d_item :: int
  d_quantity :: int
  d_unit_price :: rat

text \<open>
  The surroundings of one request: what other sessions commit between this request's
  idempotency check and its next read (\<open>concurrent\<close>), the upload collaborator
  (\<^verbatim>\<open>S3Service.upload_image\<close>: \<open>Inl\<close> is the message of an \<^verbatim>\<open>S3ServiceError\<close>,
  \<open>Inr\<close> the URL), and the fault, if any, that the store raises at the \<open>n\<close>-th write
  of the request (\<open>faults\<close>).
\<close>

record env =
  concurrent :: "tables \<Rightarrow> tables"
  upload_image :: "string \<Rightarrow> string \<Rightarrow> string + string"
  faults :: "nat \<Rightarrow> fault option"

datatype level = INFO | WARNING | ERROR

text \<open>
  The keys of \<^verbatim>\<open>ERROR_MESSAGES\<close> in \<^verbatim>\<open>utils/constants.py\<close> that the order router
  formats, with the values it formats them with.
\<close>

datatype detail =
    order_not_found int
  | order_items_empty
  | order_item_not_found int
  | order_insufficient_stock int int int
  | order_invalid_quantity
  | order_invalid_status OrderStatus OrderStatus
  | database_integrity_error string
  | database_error string

text \<open>
  What the caller gets: a status code with the order the handler returns (the result of
  its \<^verbatim>\<open>.first()\<close> query, so possibly nothing), an \<^verbatim>\<open>HTTPException\<close>, or an
  exception that no handler of the router catches.
\<close>

datatype response =
    Success nat "Order option"
  | HTTPException nat detail
  | Unhandled

record outcome =
  db :: tables
  logs :: "(level \<times> string) list"
  s3_calls :: "(string \<times> string) list"
  response :: response

section \<open>The persistence layer\<close>

text \<open>New primary keys: one more than the largest key of the table.\<close>

definition next_id :: "int list \<Rightarrow> int" where
  "next_id ids = foldr max ids 0 + 1"

text \<open>\<^verbatim>\<open>order_manager.get_by_field(db, "request_id", value)\<close>.\<close>

definition get_by_request_id :: "tables \<Rightarrow> string \<Rightarrow> Order option" where
  "get_by_request_id t r = find (\<lambda>x. request_id x = r) (orders t)"

text \<open>\<^verbatim>\<open>db.query(Order).filter(Order.id == id).first()\<close>.\<close>

definition get_order_row :: "tables \<Rightarrow> int \<Rightarrow> Order option" where
  "get_order_row t i = find (\<lambda>x. order_id x = i) (orders t)"

text \<open>The relationship \<^verbatim>\<open>Order.items\<close>: the order items of an order.\<close>

definition items_of :: "tables \<Rightarrow> int \<Rightarrow> OrderItem list" where
  "items_of t i = filter (\<lambda>l. oi_order_id l = i) (order_items t)"

text \<open>
  \<^verbatim>\<open>DBManager.update\<close> (\<^verbatim>\<open>database/connection.py\<close>): query the row; without a row
  return \<^verbatim>\<open>None\<close>; otherwise set the fields, \<^verbatim>\<open>db.commit()\<close>, and on an exception
  \<^verbatim>\<open>db.rollback()\<close> and raise again. \<open>upd\<close> sets the fields of the row in the
  working copy and is \<open>None\<close> when the row is missing; the result is the exception
  raised, if any.
\<close>

definition DBManager_update ::
  "fault option \<Rightarrow> (tables \<Rightarrow> tables option) \<Rightarrow> session \<Rightarrow> session \<times> fault option" where
  "DBManager_update f upd s =
     (case upd (working s) of
        None \<Rightarrow> (s, None)
      | Some t' \<Rightarrow>
          (case f of
             None \<Rightarrow> (commit (s\<lparr>working := t'\<rparr>), None)
           | Some e \<Rightarrow> (rollback (s\<lparr>working := t'\<rparr>), Some e)))"

text \<open>The field assignments of the three calls of \<^verbatim>\<open>update\<close>.\<close>

definition set_stock :: "int \<Rightarrow> int \<Rightarrow> tables \<Rightarrow> tables option" where
  "set_stock i v t =
     (case items t i of
        None \<Rightarrow> None
      | Some it \<Rightarrow> Some (t\<lparr>items := (items t)(i \<mapsto> it\<lparr>stock := v\<rparr>)\<rparr>))"

definition set_status :: "int \<Rightarrow> OrderStatus \<Rightarrow> tables \<Rightarrow> tables option" where
  "set_status i st t =
     (case get_order_row t i of
        None \<Rightarrow> None
      | Some _ \<Rightarrow>
          Some (t\<lparr>orders := map (\<lambda>x. if order_id x = i then x\<lparr>status := st\<rparr> else x) (orders t)\<rparr>))"

section \<open>Order creation\<close>

text \<open>
  The validation loop of \<^verbatim>\<open>create_order\<close> (\<^verbatim>\<open>routers/orders.py\<close>, lines 98 to 135):
  each line is checked on its own against the row of its item, in the order of the
  request; the first failing line raises.
\<close>

fun validate_items :: "tables \<Rightarrow> OrderItemCreate list \<Rightarrow> detail + item_data list" where
  "validate_items t [] = Inr []"
| "validate_items t (x # xs) =
     (if req_quantity x \<le> 0 then Inl order_invalid_quantity
      else case items t (item_id x) of
        None \<Rightarrow> Inl (order_item_not_found (item_id x))
      | Some db_item \<Rightarrow>
          if stock db_item < req_quantity x
          then Inl (order_insufficient_stock (item_id x) (stock db_item) (req_quantity x))
          else (case validate_items t xs of
                  Inl e \<Rightarrow> Inl e
                | Inr ds \<Rightarrow>
                    Inr (\<lparr>d_item = item_id x, d_quantity = req_quantity x,
                          d_unit_price = price db_item\<rparr> # ds)))"

text \<open>The warning logged before each of these exceptions.\<close>

fun validation_warning :: "detail \<Rightarrow> string" where
  "validation_warning order_invalid_quantity = ''Invalid quantity''"
| "validation_warning (order_item_not_found _) = ''Item not found''"
| "validation_warning _ = ''Insufficient stock''"

text \<open>\<^verbatim>\<open>db.add(order_item)\<close> for one entry of \<^verbatim>\<open>order_items_data\<close>.\<close>

definition add_order_item :: "int \<Rightarrow> item_data \<Rightarrow> tables \<Rightarrow> tables" where
  "add_order_item oid d t =
     t\<lparr>order_items := order_items t @
          [\<lparr>oi_id = next_id (map oi_id (order_items t)), oi_order_id = oid,
            oi_item_id = d_item d, quantity = d_quantity d, unit_price = d_unit_price d\<rparr>]\<rparr>"

text \<open>
  Step 3 of \<^verbatim>\<open>create_order\<close> (lines 174 to 189): for each entry, add the order item and
  call \<^verbatim>\<open>item_manager.update\<close> with \<^verbatim>\<open>item_data["item"].stock - item_data["quantity"]\<close>.
  The stock is read from the ORM object, so it is the stock of the row at that moment.
  \<open>k\<close> counts the writes of the request. An object whose row is gone raises on the
  read (SQLAlchemy's \<^verbatim>\<open>ObjectDeletedError\<close>, a \<^verbatim>\<open>SQLAlchemyError\<close>).
\<close>

fun create_items ::
  "(nat \<Rightarrow> fault option) \<Rightarrow> nat \<Rightarrow> int \<Rightarrow> item_data list \<Rightarrow> session \<Rightarrow> session \<times> fault option" where
  "create_items fs k oid [] s = (s, None)"
| "create_items fs k oid (d # ds) s =
     (let s1 = s\<lparr>working := add_order_item oid d (working s)\<rparr> in
      case items (working s1) (d_item d) of
        None \<Rightarrow> (s1, Some SQLAlchemyError)
      | Some it \<Rightarrow>
          (case DBManager_update (fs k) (set_stock (d_item d) (stock it - d_quantity d)) s1 of
             (s2, Some e) \<Rightarrow> (s2, Some e)
           | (s2, None) \<Rightarrow> create_items fs (Suc k) oid ds s2))"

text \<open>
  The \<^verbatim>\<open>try\<close> block of \<^verbatim>\<open>create_order\<close> (lines 150 to 197). Writes 0 and 1 are the two
  \<^verbatim>\<open>db.flush()\<close> calls, writes 2 onwards the updates of the items, the last one the
  \<^verbatim>\<open>db.commit()\<close> of the function. The flush of the order raises \<^verbatim>\<open>IntegrityError\<close>
  when the unique column \<^verbatim>\<open>request_id\<close> already holds the value. The result is the
  exception raised, or the key of the new order.
\<close>

definition create_transaction ::
  "(nat \<Rightarrow> fault option) \<Rightarrow> int \<Rightarrow> OrderCreate \<Rightarrow> string option \<Rightarrow> item_data list \<Rightarrow> session
     \<Rightarrow> session \<times> (level \<times> string) list \<times> (fault + int)" where
  "create_transaction fs user_id order' url ds s =
     (case fs 0 of
        Some e \<Rightarrow> (s, [], Inl e)
      | None \<Rightarrow>
          (let w = working s;
               rid = next_id (map report_id (reports w));
               db_report = \<lparr>report_id = rid,
                           title = tr_title (technical_report order'),
                           description = tr_description (technical_report order'),
                           diagnosis = tr_diagnosis (technical_report order'),
                           recommendations = tr_recommendations (technical_report order'),
                           created_by_id = Some user_id\<rparr>;
               w1 = w\<lparr>reports := reports w @ [db_report]\<rparr>;
               lg = [(INFO, ''TechnicalReport created'')]
           in case (if get_by_request_id w1 (req_request_id order') \<noteq> None
                    then Some IntegrityError else fs 1) of
                Some e \<Rightarrow> (s\<lparr>working := w1\<rparr>, lg, Inl e)
              | None \<Rightarrow>
                  (let oid = next_id (map order_id (orders w1));
                       db_order = \<lparr>order_id = oid, request_id = req_request_id order',
                                  technical_report_id = rid, status = PENDING,
                                  image_url = url\<rparr>;
                       w2 = w1\<lparr>orders := orders w1 @ [db_order]\<rparr>
                   in case create_items fs 2 oid ds (s\<lparr>working := w2\<rparr>) of
                        (s3, Some e) \<Rightarrow> (s3, lg, Inl e)
                      | (s3, None) \<Rightarrow>
                          (case fs (2 + length ds) of
                             Some e \<Rightarrow> (s3, lg, Inl e)
                           | None \<Rightarrow> (commit s3, lg @ [(INFO, ''Order created'')], Inr oid)))))"

text \<open>
  \<^verbatim>\<open>create_order\<close>. The idempotency check comes first; then the empty-list check, the
  validation loop, the optional upload (an \<^verbatim>\<open>S3ServiceError\<close> is logged and dropped),
  the transaction and its two exception handlers. A success carries 201 unless the
  handler set \<^verbatim>\<open>response.status_code\<close> to 200. The database of the outcome is what is
  committed when the request ends (\<^verbatim>\<open>get_db\<close> closes the session).
\<close>

definition create_order :: "env \<Rightarrow> int \<Rightarrow> OrderCreate \<Rightarrow> tables \<Rightarrow> outcome" where
  "create_order e user_id order' t =
     (case get_by_request_id t (req_request_id order') of
        Some existing_order \<Rightarrow>
          \<lparr>db = t, logs = [(INFO, ''Idempotent request'')], s3_calls = [],
           response = Success 200 (get_order_row t (order_id existing_order))\<rparr>
      | None \<Rightarrow>
          (let t0 = concurrent e t in
           if req_items order' = [] then
             \<lparr>db = t0, logs = [(WARNING, ''Attempt to create order with empty items list'')],
              s3_calls = [], response = HTTPException 400 order_items_empty\<rparr>
           else case validate_items t0 (req_items order') of
             Inl d \<Rightarrow>
               \<lparr>db = t0, logs = [(WARNING, validation_warning d)], s3_calls = [],
                response = HTTPException 400 d\<rparr>
           | Inr order_items_data \<Rightarrow>
               (let up = (case image_base64 order' of
                            None \<Rightarrow> None
                          | Some img \<Rightarrow> Some (img, upload_image e img (req_request_id order')));
                    url = (case up of Some (_, Inr u) \<Rightarrow> Some u | _ \<Rightarrow> None);
                    lg0 = (case up of
                             None \<Rightarrow> []
                           | Some (_, Inr u) \<Rightarrow> [(INFO, ''Image uploaded to S3'')]
                           | Some (_, Inl m) \<Rightarrow>
                               [(WARNING, ''S3 upload failed (continuing without image)'')]);
                    calls = (case up of
                               None \<Rightarrow> []
                             | Some (img, _) \<Rightarrow> [(img, req_request_id order')])
                in case create_transaction (faults e) user_id order' url order_items_data
                          (open_session t0) of
                     (s, lg, Inr oid) \<Rightarrow>
                       \<lparr>db = committed s, logs = lg0 @ lg, s3_calls = calls,
                        response = Success 201 (get_order_row (committed s) oid)\<rparr>
                   | (s, lg, Inl IntegrityError) \<Rightarrow>
                       (let s' = rollback s in
                        case get_by_request_id (working s') (req_request_id order') of
                          Some existing \<Rightarrow>
                            \<lparr>db = committed s',
                             logs = lg0 @ lg @ [(INFO, ''Race condition detected'')],
                             s3_calls = calls,
                             response =
                               Success 200 (get_order_row (working s') (order_id existing))\<rparr>
                        | None \<Rightarrow>
                            \<lparr>db = committed s',
                             logs = lg0 @ lg @ [(ERROR, ''IntegrityError creating order'')],
                             s3_calls = calls,
                             response = HTTPException 500
                               (database_integrity_error ''Failed to create order'')\<rparr>)
                   | (s, lg, Inl SQLAlchemyError) \<Rightarrow>
                       \<lparr>db = committed (rollback s),
                        logs = lg0 @ lg @ [(ERROR, ''Database error creating order'')],
                        s3_calls = calls,
                        response = HTTPException 500
                          (database_error ''Failed to create order'')\<rparr>)))"

section \<open>Status transitions\<close>

text \<open>\<^verbatim>\<open>VALID_STATUS_TRANSITIONS\<close> (\<^verbatim>\<open>utils/constants.py\<close>).\<close>

fun VALID_STATUS_TRANSITIONS :: "OrderStatus \<Rightarrow> OrderStatus list" where
  "VALID_STATUS_TRANSITIONS PENDING = [IN_PROGRESS, CANCELLED]"
| "VALID_STATUS_TRANSITIONS IN_PROGRESS = [COMPLETED, CANCELLED]"
| "VALID_STATUS_TRANSITIONS COMPLETED = []"
| "VALID_STATUS_TRANSITIONS CANCELLED = []"

text \<open>
  The loop that restores stock (lines 412 to 417): for each order item,
  \<^verbatim>\<open>item_manager.update\<close> with \<^verbatim>\<open>order_item.item.stock + order_item.quantity\<close>.
  \<^verbatim>\<open>order_item.item\<close> is \<^verbatim>\<open>None\<close> when the item row is missing, and reading its stock
  is then an \<^verbatim>\<open>AttributeError\<close>, which no handler catches (\<open>Inl ()\<close>).
\<close>

fun restore_stock ::
  "(nat \<Rightarrow> fault option) \<Rightarrow> nat \<Rightarrow> OrderItem list \<Rightarrow> session \<Rightarrow> session \<times> (unit + fault option)" where
  "restore_stock fs k [] s = (s, Inr None)"
| "restore_stock fs k (l # ls) s =
     (case items (working s) (oi_item_id l) of
        None \<Rightarrow> (s, Inl ())
      | Some it \<Rightarrow>
          (case DBManager_update (fs k) (set_stock (oi_item_id l) (stock it + quantity l)) s of
             (s1, Some e) \<Rightarrow> (s1, Inr (Some e))
           | (s1, None) \<Rightarrow> restore_stock fs (Suc k) ls s1))"

text \<open>
  \<^verbatim>\<open>update_order_status\<close> (lines 370 to 444). The writes of the request are the updates
  of the items, when the order is being cancelled, and then the update of the order.
\<close>

definition update_order_status :: "env \<Rightarrow> int \<Rightarrow> OrderStatus \<Rightarrow> tables \<Rightarrow> outcome" where
  "update_order_status e oid new_status t =
     (case get_order_row t oid of
        None \<Rightarrow>
          \<lparr>db = t, logs = [(WARNING, ''Order not found'')], s3_calls = [],
           response = HTTPException 404 (order_not_found oid)\<rparr>
      | Some db_order \<Rightarrow>
          (let current_status = status db_order in
           if new_status \<notin> set (VALID_STATUS_TRANSITIONS current_status) then
             \<lparr>db = t, logs = [(WARNING, ''Invalid status transition'')], s3_calls = [],
              response = HTTPException 400 (order_invalid_status current_status new_status)\<rparr>
           else
             (let cancelling = (new_status = CANCELLED \<and> current_status \<noteq> CANCELLED);
                  ls = (if cancelling then items_of t oid else []);
                  lg1 = (if cancelling then [(INFO, ''Order cancelled, stock restored'')] else [])
              in case restore_stock (faults e) 0 ls (open_session t) of
                   (s1, Inl _) \<Rightarrow>
                     \<lparr>db = committed (rollback s1), logs = [], s3_calls = [],
                      response = Unhandled\<rparr>
                 | (s1, Inr (Some f)) \<Rightarrow>
                     \<lparr>db = committed (rollback s1),
                      logs = [(ERROR, ''Database error updating order status'')], s3_calls = [],
                      response = HTTPException 500
                        (database_error ''Failed to update order status'')\<rparr>
                 | (s1, Inr None) \<Rightarrow>
                     (case DBManager_update (faults e (length ls)) (set_status oid new_status) s1 of
                        (s2, Some f) \<Rightarrow>
                          \<lparr>db = committed (rollback s2),
                           logs = lg1 @ [(ERROR, ''Database error updating order status'')],
                           s3_calls = [],
                           response = HTTPException 500
                             (database_error ''Failed to update order status'')\<rparr>
                      | (s2, None) \<Rightarrow>
                          \<lparr>db = committed s2,
                           logs = lg1 @ [(INFO, ''Order status updated'')], s3_calls = [],
                           response = Success 200 (get_order_row (working s2) oid)\<rparr>))))"

section \<open>Derived values and item updates\<close>

text \<open>
  The property \<^verbatim>\<open>Order.total_amount\<close> (\<^verbatim>\<open>models/order.py\<close>): the sum, from
  \<^verbatim>\<open>Decimal("0.00")\<close>, of \<^verbatim>\<open>unit_price * quantity\<close> over \<^verbatim>\<open>self.items\<close>. It is computed
  from the order items on every read; the order row has no such column.
\<close>

definition total_amount :: "tables \<Rightarrow> Order \<Rightarrow> rat" where
  "total_amount t x =
     foldl (+) 0 (map (\<lambda>l. unit_price l * of_int (quantity l)) (items_of t (order_id x)))"

text \<open>
  The body of \<^verbatim>\<open>PATCH /items/{item_id}\<close> (\<^verbatim>\<open>schemas/item.py\<close>): a field that the
  request does not set is \<open>None\<close>.
\<close>

record ItemUpdate =
  upd_name :: "string option"
  upd_price :: "rat option"
  upd_stock :: "int option"

definition set_fields :: "int \<Rightarrow> ItemUpdate \<Rightarrow> tables \<Rightarrow> tables option" where
  "set_fields i u t =
     (case items t i of
        None \<Rightarrow> None
      | Some it \<Rightarrow>
          Some (t\<lparr>items := (items t)(i \<mapsto>
             it\<lparr>item_name := (case upd_name u of None \<Rightarrow> item_name it | Some n \<Rightarrow> n),
                price := (case upd_price u of None \<Rightarrow> price it | Some p \<Rightarrow> p),
                stock := (case upd_stock u of None \<Rightarrow> stock it | Some n \<Rightarrow> n)\<rparr>)\<rparr>))"

text \<open>
  \<^verbatim>\<open>update_item\<close> (\<^verbatim>\<open>routers/items.py\<close>), as far as the database goes: without the
  item nothing is written, otherwise \<^verbatim>\<open>item_manager.update\<close> sets the fields that the
  request sets. The result is the database when the request ends.
\<close>

definition update_item :: "env \<Rightarrow> int \<Rightarrow> ItemUpdate \<Rightarrow> tables \<Rightarrow> tables" where
  "update_item e i u t =
     (if items t i = None then t
      else case DBManager_update (faults e 0) (set_fields i u) (open_session t) of
             (s, None) \<Rightarrow> committed s
           | (s, Some _) \<Rightarrow> committed (rollback s))"

section \<open>Fixtures\<close>

text \<open>
  The data of \<^verbatim>\<open>tests/test_orders.py\<close>: \<^verbatim>\<open>_create_item\<close> makes an item of price 50
  with 100 in stock, \<^verbatim>\<open>_build_order_data\<close> a request with one line. \<open>store\<close> holds
  three such items and no order; \<open>calm\<close> is a request that nothing disturbs (no other
  session, no fault of the store) and whose upload collaborator is down.
\<close>

definition test_item :: "string \<Rightarrow> Item" where
  "test_item s = \<lparr>item_name = ''Test Item'', sku = s, price = 50, stock = 100\<rparr>"

definition build_order_data :: "string \<Rightarrow> int \<Rightarrow> int \<Rightarrow> OrderCreate" where
  "build_order_data r i q =
     \<lparr>req_request_id = r,
      technical_report = \<lparr>tr_title = ''Mantenimiento preventivo'',
                          tr_description = ''Revision general del equipo'',
                          tr_diagnosis = Some ''Desgaste normal en componentes'',
                          tr_recommendations = Some ''Programar siguiente revision''\<rparr>,
      req_items = [\<lparr>item_id = i, req_quantity = q\<rparr>],
      image_base64 = None\<rparr>"

definition store :: tables where
  "store = \<lparr>reports = [], orders = [], order_items = [],
            items = [1 \<mapsto> test_item ''TST-001'', 2 \<mapsto> test_item ''TST-002'',
                     3 \<mapsto> test_item ''TST-003'']\<rparr>"

definition calm :: env where
  "calm = \<lparr>concurrent = (\<lambda>t. t), upload_image = (\<lambda>_ _. Inl ''AWS credentials not configured''),
           faults = (\<lambda>_. None)\<rparr>"

text \<open>The store raises \<open>f\<close> at write \<open>n\<close> of the request, and nowhere else.\<close>

definition failing_at :: "nat \<Rightarrow> fault \<Rightarrow> env" where
  "failing_at n f = calm\<lparr>faults := (\<lambda>k. if k = n then Some f else None)\<rparr>"

text \<open>\<open>store\<close> after one order \<^verbatim>\<open>ORD-001\<close> for 10 of item 1.\<close>

definition store_with_order :: tables where
  "store_with_order = db (create_order calm 1 (build_order_data ''ORD-001'' 1 10) store)"

text \<open>\<open>store_with_order\<close> after a second order \<^verbatim>\<open>ORD-002\<close> for 5 of item 2.\<close>

definition store_with_two_orders :: tables where
  "store_with_two_orders =
     db (create_order calm 1 (build_order_data ''ORD-002'' 2 5) store_with_order)"

text \<open>Requests with several lines, built from \<^verbatim>\<open>_build_order_data\<close>.\<close>

definition three_lines :: OrderCreate where
  "three_lines = (build_order_data ''ORD-003'' 1 10)
     \<lparr>req_items := [\<lparr>item_id = 1, req_quantity = 10\<rparr>, \<lparr>item_id = 2, req_quantity = 10\<rparr>,
                    \<lparr>item_id = 3, req_quantity = 10\<rparr>]\<rparr>"

definition two_lines :: OrderCreate where
  "two_lines = (build_order_data ''ORD-002'' 1 10)
     \<lparr>req_items := [\<lparr>item_id = 1, req_quantity = 10\<rparr>, \<lparr>item_id = 2, req_quantity = 10\<rparr>]\<rparr>"

definition same_item_twice :: OrderCreate where
  "same_item_twice = (build_order_data ''ORD-004'' 1 60)
     \<lparr>req_items := [\<lparr>item_id = 1, req_quantity = 60\<rparr>, \<lparr>item_id = 1, req_quantity = 60\<rparr>]\<rparr>"

text \<open>Column projections used to compare rows.\<close>

abbreviation line_view :: "OrderItem \<Rightarrow> int \<times> int \<times> int \<times> rat" where
  "line_view l \<equiv> (oi_order_id l, oi_item_id l, quantity l, unit_price l)"

abbreviation data_view :: "int \<Rightarrow> item_data \<Rightarrow> int \<times> int \<times> int \<times> rat" where
  "data_view oid d \<equiv> (oid, d_item d, d_quantity d, d_unit_price d)"

text \<open>The item table with every order item of a list given back, or every entry taken.\<close>

abbreviation restocked :: "OrderItem list \<Rightarrow> (int \<rightharpoonup> Item) \<Rightarrow> (int \<rightharpoonup> Item)" where
  "restocked ls m \<equiv>
     (\<lambda>i. map_option
        (\<lambda>it. it\<lparr>stock := stock it + sum_list (map quantity (filter (\<lambda>l. oi_item_id l = i) ls))\<rparr>)
        (m i))"

abbreviation reserved :: "item_data list \<Rightarrow> (int \<rightharpoonup> Item) \<Rightarrow> (int \<rightharpoonup> Item)" where
  "reserved ds m \<equiv>
     (\<lambda>i. map_option
        (\<lambda>it. it\<lparr>stock := stock it - sum_list (map d_quantity (filter (\<lambda>d. d_item d = i) ds))\<rparr>)
        (m i))"

text \<open>The rows that a successful creation adds, and the database after it.\<close>

abbreviation new_report :: "int \<Rightarrow> OrderCreate \<Rightarrow> tables \<Rightarrow> TechnicalReport" where
  "new_report user_id order' t \<equiv>
     \<lparr>report_id = next_id (map report_id (reports t)),
      title = tr_title (technical_report order'),
      description = tr_description (technical_report order'),
      diagnosis = tr_diagnosis (technical_report order'),
      recommendations = tr_recommendations (technical_report order'),
      created_by_id = Some user_id\<rparr>"

abbreviation new_order :: "OrderCreate \<Rightarrow> string option \<Rightarrow> tables \<Rightarrow> Order" where
  "new_order order' url t \<equiv>
     \<lparr>order_id = next_id (map order_id (orders t)), request_id = req_request_id order',
      technical_report_id = next_id (map report_id (reports t)), status = PENDING,
      image_url = url\<rparr>"

abbreviation created ::
  "int \<Rightarrow> OrderCreate \<Rightarrow> string option \<Rightarrow> item_data list \<Rightarrow> OrderItem list \<Rightarrow> tables \<Rightarrow> tables" where
  "created user_id order' url ds new t \<equiv>
     t\<lparr>reports := reports t @ [new_report user_id order' t],
       orders := orders t @ [new_order order' url t],
       order_items := order_items t @ new,
       items := reserved ds (items t)\<rparr>"

abbreviation uploaded_url :: "env \<Rightarrow> OrderCreate \<Rightarrow> string option" where
  "uploaded_url e order' \<equiv>
     (case image_base64 order' of
        None \<Rightarrow> None
      | Some img \<Rightarrow> (case upload_image e img (req_request_id order') of
                       Inl _ \<Rightarrow> None | Inr u \<Rightarrow> Some u))"

abbreviation upload_log :: "env \<Rightarrow> OrderCreate \<Rightarrow> (level \<times> string) list" where
  "upload_log e order' \<equiv>
     (case image_base64 order' of
        None \<Rightarrow> []
      | Some img \<Rightarrow> (case upload_image e img (req_request_id order') of
                       Inl _ \<Rightarrow> [(WARNING, ''S3 upload failed (continuing without image)'')]
                     | Inr u \<Rightarrow> [(INFO, ''Image uploaded to S3'')]))"

abbreviation upload_calls :: "OrderCreate \<Rightarrow> (string \<times> string) list" where
  "upload_calls order' \<equiv>
     (case image_base64 order' of None \<Rightarrow> [] | Some img \<Rightarrow> [(img, req_request_id order')])"

section \<open>Lists, keys and rows\<close>

lemma foldr_max_ge: "(i::int) \<in> set ids \<Longrightarrow> i \<le> foldr max ids a"
  by (induction ids) auto

lemma next_id_fresh: "i \<in> set ids \<Longrightarrow> i < next_id ids"
  using foldr_max_ge [of i ids 0] by (simp add: next_id_def)

lemma find_append_fresh:
  "\<forall>x\<in>set xs. \<not> P x \<Longrightarrow> P y \<Longrightarrow> find P (xs @ [y]) = Some y"
  by (induction xs) auto

lemma find_None_set: "find P xs = None \<longleftrightarrow> (\<forall>x\<in>set xs. \<not> P x)"
  by (induction xs) auto

lemma find_Some_pred: "find P xs = Some x \<Longrightarrow> P x \<and> x \<in> set xs"
  by (induction xs) (auto split: if_splits)

lemma find_distinct_key:
  "distinct (map f xs) \<Longrightarrow> x \<in> set xs \<Longrightarrow> find (\<lambda>y. f y = f x) xs = Some x"
  by (induction xs) force+

lemma VALID_STATUS_TRANSITIONS_iff:
  "new \<in> set (VALID_STATUS_TRANSITIONS cur) \<longleftrightarrow>
     (cur = PENDING \<and> (new = IN_PROGRESS \<or> new = CANCELLED)) \<or>
     (cur = IN_PROGRESS \<and> (new = COMPLETED \<or> new = CANCELLED))"
  by (cases cur) auto

lemma find_map_status:
  "find (\<lambda>x. order_id x = i) (map (\<lambda>x. if order_id x = i then x\<lparr>status := st\<rparr> else x) xs)
     = map_option (\<lambda>x. x\<lparr>status := st\<rparr>) (find (\<lambda>x. order_id x = i) xs)"
  by (induction xs) auto

section \<open>The loops without faults\<close>

lemma update_stock_ok:
  "items (working s) i = Some it \<Longrightarrow>
   DBManager_update None (set_stock i v) s =
     (let w = (working s)\<lparr>items := (items (working s))(i \<mapsto> it\<lparr>stock := v\<rparr>)\<rparr>
      in (\<lparr>committed = w, working = w\<rparr>, None))"
  by (simp add: DBManager_update_def set_stock_def commit_def Let_def)

lemma restocked_Cons:
  "m (oi_item_id l) = Some it \<Longrightarrow>
   restocked ls (m(oi_item_id l \<mapsto> it\<lparr>stock := stock it + quantity l\<rparr>)) = restocked (l # ls) m"
  by (rule ext) (auto simp: algebra_simps)

lemma restocked_Nil: "restocked [] m = m"
  by (rule ext) (simp add: option.map_ident)

lemma restore_stock_ok:
  assumes "\<forall>k. fs k = None"
  shows "\<forall>l\<in>set ls. items (working s) (oi_item_id l) \<noteq> None \<Longrightarrow>
    restore_stock fs k ls s =
      (if ls = [] then s
       else \<lparr>committed = (working s)\<lparr>items := restocked ls (items (working s))\<rparr>,
             working = (working s)\<lparr>items := restocked ls (items (working s))\<rparr>\<rparr>, Inr None)"
proof (induction ls arbitrary: s k)
  case Nil
  then show ?case by simp
next
  case (Cons l ls)
  then obtain it where it: "items (working s) (oi_item_id l) = Some it" by auto
  let ?w = "(working s)\<lparr>items := (items (working s))(oi_item_id l \<mapsto> it\<lparr>stock := stock it + quantity l\<rparr>)\<rparr>"
  let ?s1 = "\<lparr>committed = ?w, working = ?w\<rparr>"
  have ex: "\<forall>l'\<in>set ls. items (working ?s1) (oi_item_id l') \<noteq> None"
    using Cons.prems by auto
  have step: "restore_stock fs k (l # ls) s = restore_stock fs (Suc k) ls ?s1"
    using it assms by (simp add: update_stock_ok Let_def)
  show ?case
  proof (cases "ls = []")
    case True
    have "(items (working s))(oi_item_id l \<mapsto> it\<lparr>stock := stock it + quantity l\<rparr>)
            = restocked [l] (items (working s))"
      using it by (intro ext) (simp add: option.map_ident)
    then show ?thesis using step True by simp
  next
    case False
    then show ?thesis
      using step Cons.IH [OF ex, of "Suc k"]
        restocked_Cons [of "items (working s)" l it ls, OF it]
      by simp
  qed
qed

lemma reserved_Cons:
  "m (d_item d) = Some it \<Longrightarrow>
   reserved ds (m(d_item d \<mapsto> it\<lparr>stock := stock it - d_quantity d\<rparr>)) = reserved (d # ds) m"
  by (rule ext) (auto simp: algebra_simps)

lemma reserved_single:
  "m (d_item d) = Some it \<Longrightarrow>
   m(d_item d \<mapsto> it\<lparr>stock := stock it - d_quantity d\<rparr>) = reserved [d] m"
  by (rule ext) (simp add: option.map_ident)

lemma create_items_ok:
  assumes "\<forall>k. fs k = None"
  shows "\<forall>d\<in>set ds. items (working s) (d_item d) \<noteq> None \<Longrightarrow>
    \<exists>new. map line_view new = map (data_view oid) ds \<and>
      create_items fs k oid ds s =
        (if ds = [] then s
         else \<lparr>committed = (working s)\<lparr>order_items := order_items (working s) @ new,
                                        items := reserved ds (items (working s))\<rparr>,
               working = (working s)\<lparr>order_items := order_items (working s) @ new,
                                      items := reserved ds (items (working s))\<rparr>\<rparr>, None)"
proof (induction ds arbitrary: s k)
  case Nil
  then show ?case by simp
next
  case (Cons d ds)
  then obtain it where it: "items (working s) (d_item d) = Some it" by auto
  let ?row = "\<lparr>oi_id = next_id (map oi_id (order_items (working s))), oi_order_id = oid,
               oi_item_id = d_item d, quantity = d_quantity d, unit_price = d_unit_price d\<rparr>"
  let ?w = "(working s)\<lparr>order_items := order_items (working s) @ [?row],
                        items := (items (working s))(d_item d \<mapsto> it\<lparr>stock := stock it - d_quantity d\<rparr>)\<rparr>"
  let ?s1 = "\<lparr>committed = ?w, working = ?w\<rparr>"
  have ex: "\<forall>d'\<in>set ds. items (working ?s1) (d_item d') \<noteq> None"
    using Cons.prems by auto
  have step: "create_items fs k oid (d # ds) s = create_items fs (Suc k) oid ds ?s1"
    using it assms by (simp add: update_stock_ok Let_def add_order_item_def)
  show ?case
  proof (cases "ds = []")
    case True
    show ?thesis
      using step True reserved_single [of "items (working s)" d it, OF it]
      by (intro exI [of _ "[?row]"]) simp
  next
    case False
    from Cons.IH [OF ex, of "Suc k"] obtain new where
      v: "map line_view new = map (data_view oid) ds" and
      r: "create_items fs (Suc k) oid ds ?s1 =
            (\<lparr>committed = ?w\<lparr>order_items := order_items ?w @ new, items := reserved ds (items ?w)\<rparr>,
              working = ?w\<lparr>order_items := order_items ?w @ new, items := reserved ds (items ?w)\<rparr>\<rparr>, None)"
      using False by auto
    show ?thesis
      using step r v reserved_Cons [of "items (working s)" d it ds, OF it]
      by (intro exI [of _ "?row # new"]) simp
  qed
qed

lemma validate_items_data:
  "validate_items t xs = Inr ds \<Longrightarrow>
     map (\<lambda>d. (d_item d, d_quantity d)) ds = map (\<lambda>x. (item_id x, req_quantity x)) xs \<and>
     (\<forall>d\<in>set ds. \<exists>it. items t (d_item d) = Some it \<and> d_unit_price d = price it \<and>
         0 < d_quantity d \<and> d_quantity d \<le> stock it)"
proof (induction xs arbitrary: ds)
  case Nil
  then show ?case by simp
next
  case (Cons x xs)
  then show ?case
    by (auto split: if_splits option.splits sum.splits)
qed

section \<open>A creation that nothing disturbs\<close>

lemma create_transaction_ok:
  assumes nf: "\<forall>k. fs k = None"
    and pre: "get_by_request_id (working s) (req_request_id order') = None"
    and ne: "ds \<noteq> []"
    and ex: "\<forall>d\<in>set ds. items (working s) (d_item d) \<noteq> None"
  shows "\<exists>new. map line_view new = map (data_view (next_id (map order_id (orders (working s))))) ds \<and>
    create_transaction fs user_id order' url ds s =
      (\<lparr>committed = created user_id order' url ds new (working s),
        working = created user_id order' url ds new (working s)\<rparr>,
       [(INFO, ''TechnicalReport created''), (INFO, ''Order created'')],
       Inr (next_id (map order_id (orders (working s)))))"
proof -
  let ?oid = "next_id (map order_id (orders (working s)))"
  let ?w2 = "(working s)\<lparr>reports := reports (working s) @ [new_report user_id order' (working s)],
                         orders := orders (working s) @ [new_order order' url (working s)]\<rparr>"
  let ?s2 = "s\<lparr>working := ?w2\<rparr>"
  have ex2: "\<forall>d\<in>set ds. items (working ?s2) (d_item d) \<noteq> None"
    using ex by simp
  from create_items_ok [OF nf ex2, of ?oid 2] ne obtain new where
    v: "map line_view new = map (data_view ?oid) ds" and
    r: "create_items fs 2 ?oid ds ?s2 =
          (\<lparr>committed = created user_id order' url ds new (working s),
            working = created user_id order' url ds new (working s)\<rparr>, None)"
    by auto
  have "create_transaction fs user_id order' url ds s =
      (\<lparr>committed = created user_id order' url ds new (working s),
        working = created user_id order' url ds new (working s)\<rparr>,
       [(INFO, ''TechnicalReport created''), (INFO, ''Order created'')], Inr ?oid)"
    using nf pre r
    by (simp add: create_transaction_def get_by_request_id_def Let_def commit_def)
  with v show ?thesis by blast
qed

lemma create_order_created:
  assumes nf: "\<forall>k. faults e k = None"
    and conc: "concurrent e t = t"
    and pre: "get_by_request_id t (req_request_id order') = None"
    and ne: "req_items order' \<noteq> []"
    and val: "validate_items t (req_items order') = Inr ds"
  shows "\<exists>new. map line_view new = map (data_view (next_id (map order_id (orders t)))) ds \<and>
    create_order e user_id order' t =
      \<lparr>db = created user_id order' (uploaded_url e order') ds new t,
       logs = upload_log e order' @
              [(INFO, ''TechnicalReport created''), (INFO, ''Order created'')],
       s3_calls = upload_calls order',
       response = Success 201 (Some (new_order order' (uploaded_url e order') t))\<rparr>"
proof -
  have dne: "ds \<noteq> []"
    using validate_items_data [OF val] ne by auto
  have ex: "\<forall>d\<in>set ds. items (working (open_session t)) (d_item d) \<noteq> None"
    using validate_items_data [OF val] by (auto simp: open_session_def)
  have pre': "get_by_request_id (working (open_session t)) (req_request_id order') = None"
    using pre by (simp add: open_session_def)
  have url: "(case (case image_base64 order' of None \<Rightarrow> None
                    | Some img \<Rightarrow> Some (img, upload_image e img (req_request_id order'))) of
               None \<Rightarrow> None | Some (_, Inl _) \<Rightarrow> None | Some (_, Inr u) \<Rightarrow> Some u)
             = uploaded_url e order'"
    by (simp split: option.splits sum.splits)
  have lg: "(case (case image_base64 order' of None \<Rightarrow> None
                    | Some img \<Rightarrow> Some (img, upload_image e img (req_request_id order'))) of
               None \<Rightarrow> []
             | Some (_, Inl m) \<Rightarrow> [(WARNING, ''S3 upload failed (continuing without image)'')]
             | Some (_, Inr u) \<Rightarrow> [(INFO, ''Image uploaded to S3'')])
             = upload_log e order'"
    by (simp split: option.splits sum.splits)
  have calls: "(case (case image_base64 order' of None \<Rightarrow> None
                    | Some img \<Rightarrow> Some (img, upload_image e img (req_request_id order'))) of
               None \<Rightarrow> [] | Some (img, _) \<Rightarrow> [(img, req_request_id order')])
             = upload_calls order'"
    by (simp split: option.splits)
  from create_transaction_ok [OF nf pre' dne ex, of user_id "uploaded_url e order'"]
  obtain new where
    v: "map line_view new = map (data_view (next_id (map order_id (orders t)))) ds" and
    r: "create_transaction (faults e) user_id order' (uploaded_url e order') ds (open_session t) =
      (\<lparr>committed = created user_id order' (uploaded_url e order') ds new t,
        working = created user_id order' (uploaded_url e order') ds new t\<rparr>,
       [(INFO, ''TechnicalReport created''), (INFO, ''Order created'')],
       Inr (next_id (map order_id (orders t))))"
    by (auto simp: open_session_def)
  have fresh: "\<forall>x\<in>set (orders t). order_id x \<noteq> next_id (map order_id (orders t))"
    using next_id_fresh [of _ "map order_id (orders t)"] by fastforce
  have row: "get_order_row (created user_id order' (uploaded_url e order') ds new t)
               (next_id (map order_id (orders t)))
             = Some (new_order order' (uploaded_url e order') t)"
    using fresh by (simp add: get_order_row_def find_append_fresh)
  have "create_order e user_id order' t =
      \<lparr>db = created user_id order' (uploaded_url e order') ds new t,
       logs = upload_log e order' @
              [(INFO, ''TechnicalReport created''), (INFO, ''Order created'')],
       s3_calls = upload_calls order',
       response = Success 201 (Some (new_order order' (uploaded_url e order') t))\<rparr>"
    using pre conc ne val r row
    by (simp add: create_order_def Let_def url lg calls)
  with v show ?thesis by blast
qed

section \<open>Evaluating the model\<close>

lemmas model_defs =
  create_order_def create_transaction_def update_order_status_def update_item_def
  get_by_request_id_def get_order_row_def items_of_def DBManager_update_def set_stock_def
  set_status_def set_fields_def add_order_item_def next_id_def open_session_def commit_def
  rollback_def

lemmas fixture_defs =
  store_def calm_def failing_at_def test_item_def build_order_data_def store_with_order_def

lemma store_with_order_rows:
  "orders store_with_order =
     [\<lparr>order_id = 1, request_id = ''ORD-001'', technical_report_id = 1, status = PENDING,
       image_url = None\<rparr>]"
  "order_items store_with_order =
     [\<lparr>oi_id = 1, oi_order_id = 1, oi_item_id = 1, quantity = 10, unit_price = 50\<rparr>]"
  "items store_with_order 1 = Some ((test_item ''TST-001'')\<lparr>stock := 90\<rparr>)"
  "items store_with_order 2 = Some (test_item ''TST-002'')"
  "items store_with_order 3 = Some (test_item ''TST-003'')"
  by (simp_all add: model_defs fixture_defs)

lemma calm_no_faults: "\<forall>k. faults calm k = None"
  by (simp add: calm_def)

lemma store_with_order_row:
  "get_order_row store_with_order 1 =
     Some \<lparr>order_id = 1, request_id = ''ORD-001'', technical_report_id = 1, status = PENDING,
           image_url = None\<rparr>"
  by (simp add: get_order_row_def store_with_order_rows)

lemma store_with_order_fk:
  "\<forall>l\<in>set (items_of store_with_order 1). items store_with_order (oi_item_id l) \<noteq> None"
  by (simp add: items_of_def store_with_order_rows)

lemma store_valid:
  "validate_items store (req_items (build_order_data r 1 10)) =
     Inr [\<lparr>d_item = 1, d_quantity = 10, d_unit_price = 50\<rparr>]"
  by (simp add: store_def build_order_data_def test_item_def)

lemma store_empty:
  "orders store = []" "order_items store = []" "reports store = []"
  by (simp_all add: store_def)

lemma store_with_two_orders_rows:
  "orders store_with_two_orders =
     [\<lparr>order_id = 1, request_id = ''ORD-001'', technical_report_id = 1, status = PENDING,
       image_url = None\<rparr>,
      \<lparr>order_id = 2, request_id = ''ORD-002'', technical_report_id = 2, status = PENDING,
       image_url = None\<rparr>]"
  "items store_with_two_orders 3 = Some (test_item ''TST-003'')"
  by (simp_all add: model_defs fixture_defs store_with_two_orders_def)

section \<open>The idempotency check\<close>

lemma get_order_row_member:
  "x \<in> set (orders t) \<Longrightarrow> \<exists>y. get_order_row t (order_id x) = Some y \<and> order_id y = order_id x"
proof -
  assume "x \<in> set (orders t)"
  then have "find (\<lambda>y. order_id y = order_id x) (orders t) \<noteq> None"
    by (auto simp: find_None_set)
  then obtain y where "find (\<lambda>y. order_id y = order_id x) (orders t) = Some y" by auto
  then show ?thesis using find_Some_pred [of "\<lambda>y. order_id y = order_id x" "orders t" y]
    by (simp add: get_order_row_def)
qed

lemma create_order_existing:
  assumes "get_by_request_id t (req_request_id order') = Some x"
  shows "create_order e user_id order' t =
     \<lparr>db = t, logs = [(INFO, ''Idempotent request'')], s3_calls = [],
      response = Success 200 (get_order_row t (order_id x))\<rparr>"
  using assms by (simp add: create_order_def)

lemma create_order_hit:
  assumes "get_by_request_id t (req_request_id order') = Some x"
    and "distinct (map order_id (orders t))"
  shows "create_order e user_id order' t =
     \<lparr>db = t, logs = [(INFO, ''Idempotent request'')], s3_calls = [],
      response = Success 200 (Some x)\<rparr>"
proof -
  have "x \<in> set (orders t)"
    using assms(1) find_Some_pred [of _ "orders t" x] by (simp add: get_by_request_id_def)
  then have "get_order_row t (order_id x) = Some x"
    using assms(2) find_distinct_key [of order_id "orders t" x] by (simp add: get_order_row_def)
  then show ?thesis using create_order_existing [OF assms(1)] by simp
qed

lemma filter_key_fresh:
  "f x \<notin> f ` set xs \<Longrightarrow> filter (\<lambda>y. f y = f x) xs = []"
  by (induction xs) auto

lemma length_filter_distinct_key:
  "distinct (map f xs) \<Longrightarrow> x \<in> set xs \<Longrightarrow> length (filter (\<lambda>y. f y = f x) xs) = 1"
proof (induction xs)
  case Nil
  then show ?case by simp
next
  case (Cons a xs)
  show ?case
  proof (cases "a = x")
    case True
    have "f x \<notin> f ` set xs"
      using Cons.prems(1) True by simp
    then show ?thesis using True filter_key_fresh [of f x xs] by simp
  next
    case False
    then have m: "x \<in> set xs" using Cons.prems(2) by simp
    have "f a \<notin> f ` set xs" using Cons.prems(1) by simp
    then have "f a \<noteq> f x" using m by blast
    moreover have "length (filter (\<lambda>y. f y = f x) xs) = 1"
      using Cons.IH Cons.prems(1) m by simp
    ultimately show ?thesis by simp
  qed
qed

text \<open>
  The lookup by \<^verbatim>\<open>request_id\<close> on a table whose \<^verbatim>\<open>request_id\<close> column is unique
  (\<^verbatim>\<open>unique=True\<close> in \<^verbatim>\<open>models/order.py\<close>): it returns the one row that carries the
  value, and nothing when no row does.
\<close>

lemma get_by_request_id_row:
  assumes "distinct (map request_id (orders t))"
    and "x \<in> set (orders t)"
  shows "get_by_request_id t (request_id x) = Some x"
  using find_distinct_key [OF assms] by (simp add: get_by_request_id_def)

lemma get_by_request_id_absent:
  "get_by_request_id t r = None \<longleftrightarrow> (\<forall>x\<in>set (orders t). request_id x \<noteq> r)"
  by (simp add: get_by_request_id_def find_None_set)

text \<open>
  Claim C10. The idempotency check comes before everything else: when a persisted order
  carries the \<^verbatim>\<open>request_id\<close> of the request (the table being one with unique
  \<^verbatim>\<open>request_id\<close> and primary-key columns), \<^verbatim>\<open>create_order\<close> returns that very order
  with status 200, whatever the payload (its lines and its image are not looked at, so a
  payload that differs from the original one, or that validation would reject, makes no
  difference), whatever the store, other sessions and the upload collaborator would do;
  the database is unchanged and the upload collaborator is not called.
\<close>

theorem idempotency_check_first:
  assumes "x \<in> set (orders t)"
    and "request_id x = req_request_id order'"
    and "distinct (map request_id (orders t))"
    and "distinct (map order_id (orders t))"
  shows "create_order e user_id order' t =
     \<lparr>db = t, logs = [(INFO, ''Idempotent request'')], s3_calls = [],
      response = Success 200 (Some x)\<rparr>"
proof -
  have "get_by_request_id t (req_request_id order') = Some x"
    using get_by_request_id_row [OF assms(3) assms(1)] assms(2) by simp
  then show ?thesis
    using assms(4) by (rule create_order_hit)
qed

theorem idempotency_check_first_witness:
  "orders store_with_two_orders =
     [\<lparr>order_id = 1, request_id = ''ORD-001'', technical_report_id = 1, status = PENDING,
       image_url = None\<rparr>,
      \<lparr>order_id = 2, request_id = ''ORD-002'', technical_report_id = 2, status = PENDING,
       image_url = None\<rparr>] \<and>
   validate_items store_with_two_orders (req_items (build_order_data ''ORD-002'' 3 500)) =
     Inl (order_insufficient_stock 3 100 500) \<and>
   create_order (failing_at 0 SQLAlchemyError) 2
      ((build_order_data ''ORD-002'' 3 500)\<lparr>image_base64 := Some ''aGVsbG8=''\<rparr>)
      store_with_two_orders =
     \<lparr>db = store_with_two_orders, logs = [(INFO, ''Idempotent request'')], s3_calls = [],
      response = Success 200
        (Some \<lparr>order_id = 2, request_id = ''ORD-002'', technical_report_id = 2, status = PENDING,
               image_url = None\<rparr>)\<rparr>"
proof -
  let ?x = "\<lparr>order_id = 2, request_id = ''ORD-002'', technical_report_id = 2, status = PENDING,
             image_url = None\<rparr>"
  let ?o = "(build_order_data ''ORD-002'' 3 500)\<lparr>image_base64 := Some ''aGVsbG8=''\<rparr>"
  have h1: "?x \<in> set (orders store_with_two_orders)"
    by (simp add: store_with_two_orders_rows)
  have h2: "request_id ?x = req_request_id ?o"
    by (simp add: build_order_data_def)
  have h3: "distinct (map request_id (orders store_with_two_orders))"
    by (simp add: store_with_two_orders_rows)
  have h4: "distinct (map order_id (orders store_with_two_orders))"
    by (simp add: store_with_two_orders_rows)
  have v: "validate_items store_with_two_orders (req_items (build_order_data ''ORD-002'' 3 500)) =
     Inl (order_insufficient_stock 3 100 500)"
    by (simp add: build_order_data_def store_with_two_orders_rows test_item_def)
  show ?thesis
    using idempotency_check_first [OF h1 h2 h3 h4, of "failing_at 0 SQLAlchemyError" 2] v
    by (simp add: store_with_two_orders_rows)
qed

text \<open>
  Claim C2. Two calls of \<^verbatim>\<open>create_order\<close> in a row with the same valid payload, the
  first one undisturbed: the first call succeeds (201, or 200 when the order was there
  before), the second call, whatever its surroundings, returns the same order with 200,
  writes nothing (the database, stocks included, is as the first call left it), calls no
  upload, and exactly one order carries the \<^verbatim>\<open>request_id\<close>.
\<close>

theorem sequential_idempotency:
  assumes nf: "\<forall>k. faults e k = None"
    and conc: "concurrent e t = t"
    and uniq: "distinct (map request_id (orders t))"
    and ids: "distinct (map order_id (orders t))"
    and ne: "req_items order' \<noteq> []"
    and val: "validate_items t (req_items order') = Inr ds"
  shows "\<exists>x. response (create_order e user_id order' t) =
              Success (if get_by_request_id t (req_request_id order') = None then 201 else 200) (Some x)
         \<and> request_id x = req_request_id order'
         \<and> (\<forall>e2 u2. create_order e2 u2 order' (db (create_order e user_id order' t)) =
              \<lparr>db = db (create_order e user_id order' t), logs = [(INFO, ''Idempotent request'')],
               s3_calls = [], response = Success 200 (Some x)\<rparr>)
         \<and> length (filter (\<lambda>y. request_id y = req_request_id order')
                      (orders (db (create_order e user_id order' t)))) = 1"
proof (cases "get_by_request_id t (req_request_id order')")
  case (Some x)
  note hit = create_order_hit [OF Some ids]
  have mem: "x \<in> set (orders t)" and rx: "request_id x = req_request_id order'"
    using Some find_Some_pred [of "\<lambda>y. request_id y = req_request_id order'" "orders t" x]
    by (simp_all add: get_by_request_id_def)
  have "length (filter (\<lambda>y. request_id y = request_id x) (orders t)) = 1"
    using length_filter_distinct_key [OF uniq mem] .
  then show ?thesis
    using Some rx by (intro exI [of _ x]) (simp add: hit)
next
  case None
  from create_order_created [OF nf conc None ne val, of user_id] obtain new where
    r: "create_order e user_id order' t =
      \<lparr>db = created user_id order' (uploaded_url e order') ds new t,
       logs = upload_log e order' @
              [(INFO, ''TechnicalReport created''), (INFO, ''Order created'')],
       s3_calls = upload_calls order',
       response = Success 201 (Some (new_order order' (uploaded_url e order') t))\<rparr>"
    by blast
  let ?x = "new_order order' (uploaded_url e order') t"
  let ?t1 = "created user_id order' (uploaded_url e order') ds new t"
  have none: "\<forall>y\<in>set (orders t). request_id y \<noteq> req_request_id order'"
    using None by (simp add: get_by_request_id_def find_None_set)
  have fresh: "\<forall>y\<in>set (orders t). order_id y \<noteq> next_id (map order_id (orders t))"
    using next_id_fresh [of _ "map order_id (orders t)"] by fastforce
  have g: "get_by_request_id ?t1 (req_request_id order') = Some ?x"
    using none by (simp add: get_by_request_id_def find_append_fresh)
  have d: "distinct (map order_id (orders ?t1))"
    using ids fresh by auto
  have cnt: "filter (\<lambda>y. request_id y = req_request_id order') (orders t) = []"
    using none by (auto simp: filter_empty_conv)
  have again: "create_order e2 u2 order' ?t1 =
     \<lparr>db = ?t1, logs = [(INFO, ''Idempotent request'')], s3_calls = [],
      response = Success 200 (Some ?x)\<rparr>" for e2 u2
    using create_order_hit [OF g d] .
  show ?thesis
    using None cnt again by (intro exI [of _ ?x]) (simp add: r)
qed

theorem sequential_idempotency_witness:
  "validate_items store (req_items (build_order_data ''ORD-001'' 1 10)) =
     Inr [\<lparr>d_item = 1, d_quantity = 10, d_unit_price = 50\<rparr>] \<and>
   get_by_request_id store ''ORD-001'' = None \<and>
   (\<exists>x. response (create_order calm 1 (build_order_data ''ORD-001'' 1 10) store) = Success 201 (Some x) \<and>
        create_order (failing_at 0 SQLAlchemyError) 2 (build_order_data ''ORD-001'' 1 10) store_with_order =
          \<lparr>db = store_with_order, logs = [(INFO, ''Idempotent request'')], s3_calls = [],
           response = Success 200 (Some x)\<rparr>) \<and>
   length (filter (\<lambda>y. request_id y = ''ORD-001'') (orders store_with_order)) = 1 \<and>
   map_option stock (items store_with_order 1) = Some 90"
proof -
  have conc: "concurrent calm store = store" by (simp add: calm_def)
  have uniq: "distinct (map request_id (orders store))" by (simp add: store_empty)
  have ids: "distinct (map order_id (orders store))" by (simp add: store_empty)
  have ne: "req_items (build_order_data ''ORD-001'' 1 10) \<noteq> []" by (simp add: build_order_data_def)
  have none: "get_by_request_id store ''ORD-001'' = None"
    by (simp add: get_by_request_id_def store_empty)
  have rq: "req_request_id (build_order_data ''ORD-001'' 1 10) = ''ORD-001''"
    by (simp add: build_order_data_def)
  from sequential_idempotency [OF calm_no_faults conc uniq ids ne store_valid, of 1]
  obtain x where
    a: "response (create_order calm 1 (build_order_data ''ORD-001'' 1 10) store) = Success 201 (Some x)"
    and b: "\<forall>e2 u2. create_order e2 u2 (build_order_data ''ORD-001'' 1 10) store_with_order =
          \<lparr>db = store_with_order, logs = [(INFO, ''Idempotent request'')], s3_calls = [],
           response = Success 200 (Some x)\<rparr>"
    and c: "length (filter (\<lambda>y. request_id y = ''ORD-001'') (orders store_with_order)) = 1"
    unfolding store_with_order_def [symmetric] rq using none by auto
  from a b c none store_valid show ?thesis
    by (auto simp: store_with_order_rows test_item_def)
qed

text \<open>
  The race: when another session has committed an order with the same \<^verbatim>\<open>request_id\<close>
  after the idempotency check, the flush of the order raises \<^verbatim>\<open>IntegrityError\<close>, the
  handler rolls back, finds the winner and returns it with 200; nothing of this attempt
  is stored.
\<close>

lemma race_returns_winner:
  assumes pre: "get_by_request_id t (req_request_id order') = None"
    and win: "get_by_request_id (concurrent e t) (req_request_id order') = Some w"
    and ids: "distinct (map order_id (orders (concurrent e t)))"
    and ne: "req_items order' \<noteq> []"
    and val: "validate_items (concurrent e t) (req_items order') = Inr ds"
    and f0: "faults e 0 = None"
  shows "db (create_order e user_id order' t) = concurrent e t \<and>
         response (create_order e user_id order' t) = Success 200 (Some w)"
proof -
  have "w \<in> set (orders (concurrent e t))"
    using win find_Some_pred [of _ "orders (concurrent e t)" w] by (simp add: get_by_request_id_def)
  then have row: "get_order_row (concurrent e t) (order_id w) = Some w"
    using ids find_distinct_key [of order_id "orders (concurrent e t)" w]
    by (simp add: get_order_row_def)
  have win': "find (\<lambda>x. request_id x = req_request_id order') (orders (concurrent e t)) = Some w"
    using win by (simp add: get_by_request_id_def)
  show ?thesis
    using pre ne val f0 row win win'
    by (simp add: create_order_def create_transaction_def Let_def open_session_def rollback_def
          get_by_request_id_def)
qed

section \<open>The upload collaborator\<close>

lemma upload_failure_as_no_image:
  assumes "image_base64 order' = Some img"
    and "upload_image e img (req_request_id order') = Inl msg"
  shows "db (create_order e user_id order' t) = db (create_order e user_id (order'\<lparr>image_base64 := None\<rparr>) t) \<and>
         response (create_order e user_id order' t) =
           response (create_order e user_id (order'\<lparr>image_base64 := None\<rparr>) t)"
proof -
  have tr: "create_transaction fs user_id (order'\<lparr>image_base64 := None\<rparr>) url ds s =
            create_transaction fs user_id order' url ds s" for fs url ds s
    by (simp add: create_transaction_def Let_def cong: option.case_cong prod.case_cong)
  show ?thesis
    using assms
    by (simp add: create_order_def Let_def tr
          split: option.splits sum.splits prod.splits fault.splits)
qed

text \<open>
  Claim C9. A valid request with an image whose upload fails: in any surroundings the
  database and the response are those of the same request without an image, so the
  failure is never what the caller sees; and when nothing else disturbs the request, the
  order is created (201) with no \<^verbatim>\<open>image_url\<close>, and the failure is logged as a warning.
\<close>

theorem upload_failure_is_swallowed:
  assumes nf: "\<forall>k. faults e k = None"
    and conc: "concurrent e t = t"
    and pre: "get_by_request_id t (req_request_id order') = None"
    and ne: "req_items order' \<noteq> []"
    and val: "validate_items t (req_items order') = Inr ds"
    and img: "image_base64 order' = Some img"
    and fail: "upload_image e img (req_request_id order') = Inl msg"
  shows "response (create_order e user_id order' t) =
           Success 201 (Some \<lparr>order_id = next_id (map order_id (orders t)),
                               request_id = req_request_id order',
                               technical_report_id = next_id (map report_id (reports t)),
                               status = PENDING, image_url = None\<rparr>)
       \<and> get_order_row (db (create_order e user_id order' t)) (next_id (map order_id (orders t))) =
           Some \<lparr>order_id = next_id (map order_id (orders t)),
                 request_id = req_request_id order',
                 technical_report_id = next_id (map report_id (reports t)),
                 status = PENDING, image_url = None\<rparr>
       \<and> logs (create_order e user_id order' t) =
           [(WARNING, ''S3 upload failed (continuing without image)''),
            (INFO, ''TechnicalReport created''), (INFO, ''Order created'')]
       \<and> db (create_order e user_id order' t) =
           db (create_order e user_id (order'\<lparr>image_base64 := None\<rparr>) t)
       \<and> response (create_order e user_id order' t) =
           response (create_order e user_id (order'\<lparr>image_base64 := None\<rparr>) t)"
proof -
  from create_order_created [OF nf conc pre ne val, of user_id] obtain new where
    r: "create_order e user_id order' t =
      \<lparr>db = created user_id order' (uploaded_url e order') ds new t,
       logs = upload_log e order' @
              [(INFO, ''TechnicalReport created''), (INFO, ''Order created'')],
       s3_calls = upload_calls order',
       response = Success 201 (Some (new_order order' (uploaded_url e order') t))\<rparr>"
    by blast
  have fresh: "\<forall>x\<in>set (orders t). order_id x \<noteq> next_id (map order_id (orders t))"
    using next_id_fresh [of _ "map order_id (orders t)"] by fastforce
  have row: "get_order_row (db (create_order e user_id order' t)) (next_id (map order_id (orders t))) =
           Some \<lparr>order_id = next_id (map order_id (orders t)),
                 request_id = req_request_id order',
                 technical_report_id = next_id (map report_id (reports t)),
                 status = PENDING, image_url = None\<rparr>"
    using fresh img fail by (simp add: r get_order_row_def find_append_fresh)
  show ?thesis
    using upload_failure_as_no_image [OF img fail, of user_id t] row img fail
    by (simp add: r)
qed

theorem upload_failure_is_swallowed_witness:
  "image_base64 ((build_order_data ''ORD-001'' 1 10)\<lparr>image_base64 := Some ''aGVsbG8=''\<rparr>) = Some ''aGVsbG8='' \<and>
   upload_image calm ''aGVsbG8='' ''ORD-001'' = Inl ''AWS credentials not configured'' \<and>
   response (create_order calm 1 ((build_order_data ''ORD-001'' 1 10)\<lparr>image_base64 := Some ''aGVsbG8=''\<rparr>) store) =
     Success 201 (Some \<lparr>order_id = 1, request_id = ''ORD-001'', technical_report_id = 1,
                         status = PENDING, image_url = None\<rparr>) \<and>
   logs (create_order calm 1 ((build_order_data ''ORD-001'' 1 10)\<lparr>image_base64 := Some ''aGVsbG8=''\<rparr>) store) =
     [(WARNING, ''S3 upload failed (continuing without image)''),
      (INFO, ''TechnicalReport created''), (INFO, ''Order created'')] \<and>
   db (create_order calm 1 ((build_order_data ''ORD-001'' 1 10)\<lparr>image_base64 := Some ''aGVsbG8=''\<rparr>) store) =
     store_with_order"
proof -
  let ?o = "(build_order_data ''ORD-001'' 1 10)\<lparr>image_base64 := Some ''aGVsbG8=''\<rparr>"
  have conc: "concurrent calm store = store" by (simp add: calm_def)
  have pre: "get_by_request_id store (req_request_id ?o) = None"
    by (simp add: get_by_request_id_def store_empty)
  have ne: "req_items ?o \<noteq> []" by (simp add: build_order_data_def)
  have val: "validate_items store (req_items ?o) = Inr [\<lparr>d_item = 1, d_quantity = 10, d_unit_price = 50\<rparr>]"
    using store_valid [of "''ORD-001''"] by (simp add: build_order_data_def)
  have img: "image_base64 ?o = Some ''aGVsbG8=''" by simp
  have fail: "upload_image calm ''aGVsbG8='' (req_request_id ?o) = Inl ''AWS credentials not configured''"
    by (simp add: calm_def)
  have same: "?o\<lparr>image_base64 := None\<rparr> = build_order_data ''ORD-001'' 1 10"
    by (simp add: build_order_data_def)
  note th = upload_failure_is_swallowed [OF calm_no_faults conc pre ne val img fail, of 1]
  from th have d: "db (create_order calm 1 ?o store) = store_with_order"
    by (simp add: same store_with_order_def)
  from th have r: "response (create_order calm 1 ?o store) =
     Success 201 (Some \<lparr>order_id = 1, request_id = ''ORD-001'', technical_report_id = 1,
                         status = PENDING, image_url = None\<rparr>)"
    by (simp add: store_empty next_id_def build_order_data_def)
  from th have l: "logs (create_order calm 1 ?o store) =
     [(WARNING, ''S3 upload failed (continuing without image)''),
      (INFO, ''TechnicalReport created''), (INFO, ''Order created'')]"
    by simp
  show ?thesis
    using d r l by (simp add: calm_def)
qed

section \<open>Price snapshots and totals\<close>

lemma foldl_plus_sum_list: "foldl (+) (a::rat) xs = a + sum_list xs"
  by (induction xs arbitrary: a) (simp_all add: algebra_simps)

lemma total_amount_sum:
  "total_amount t x =
     sum_list (map (\<lambda>l. unit_price l * of_int (quantity l)) (items_of t (order_id x)))"
  by (simp add: total_amount_def foldl_plus_sum_list)

lemma update_item_keeps_orders:
  "order_items (update_item e i u t) = order_items t \<and> orders (update_item e i u t) = orders t"
  by (auto simp: update_item_def DBManager_update_def set_fields_def open_session_def
        commit_def rollback_def split: option.splits)

lemma new_lines_view:
  "map line_view new = map (data_view oid) ds \<Longrightarrow>
     (\<forall>l\<in>set new. oi_order_id l = oid) \<and>
     map (\<lambda>l. (oi_item_id l, quantity l)) new = map (\<lambda>d. (d_item d, d_quantity d)) ds \<and>
     (\<forall>l\<in>set new. \<exists>d\<in>set ds. d_item d = oi_item_id l \<and> d_unit_price d = unit_price l)"
proof (induction new arbitrary: ds)
  case Nil
  then show ?case by simp
next
  case (Cons l new)
  then obtain d ds' where ds: "ds = d # ds'" by (cases ds) auto
  have hd: "oi_order_id l = oid" "oi_item_id l = d_item d" "quantity l = d_quantity d"
    "unit_price l = d_unit_price d"
    using Cons.prems ds by simp_all
  have tl: "map line_view new = map (data_view oid) ds'"
    using Cons.prems ds by simp
  note ih = Cons.IH [OF tl]
  have a: "\<forall>l'\<in>set (l # new). oi_order_id l' = oid"
    using hd ih by simp
  have b: "map (\<lambda>l. (oi_item_id l, quantity l)) (l # new) = map (\<lambda>d. (d_item d, d_quantity d)) ds"
    using hd ih ds by simp
  have c: "\<forall>l'\<in>set (l # new). \<exists>d\<in>set ds. d_item d = oi_item_id l' \<and> d_unit_price d = unit_price l'"
  proof
    fix l' assume "l' \<in> set (l # new)"
    then consider "l' = l" | "l' \<in> set new" by auto
    then show "\<exists>d\<in>set ds. d_item d = oi_item_id l' \<and> d_unit_price d = unit_price l'"
    proof cases
      case 1
      then show ?thesis using hd ds by simp
    next
      case 2
      then obtain d' where "d' \<in> set ds'" "d_item d' = oi_item_id l'" "d_unit_price d' = unit_price l'"
        using ih by blast
      then show ?thesis using ds by auto
    qed
  qed
  from a b c show ?case by blast
qed

text \<open>
  Claim C8. \<^verbatim>\<open>Order.total_amount\<close> is the sum of \<^verbatim>\<open>unit_price * quantity\<close> over the
  order items of the order, computed from them on each read. The order items of a newly
  created order are the lines of the request, each with the price its item had in the
  database at creation. An update of an item (its price, say) changes no order item and
  no total.
\<close>

theorem total_amount_from_price_snapshots:
  assumes nf: "\<forall>k. faults e k = None"
    and conc: "concurrent e t = t"
    and pre: "get_by_request_id t (req_request_id order') = None"
    and ne: "req_items order' \<noteq> []"
    and val: "validate_items t (req_items order') = Inr ds"
    and fk: "\<forall>l\<in>set (order_items t). oi_order_id l \<in> order_id ` set (orders t)"
  shows "response (create_order e user_id order' t) =
           Success 201 (Some (new_order order' (uploaded_url e order') t))
       \<and> map (\<lambda>l. (oi_item_id l, quantity l))
            (items_of (db (create_order e user_id order' t)) (next_id (map order_id (orders t))))
           = map (\<lambda>r. (item_id r, req_quantity r)) (req_items order')
       \<and> (\<forall>l\<in>set (items_of (db (create_order e user_id order' t)) (next_id (map order_id (orders t)))).
             map_option price (items t (oi_item_id l)) = Some (unit_price l))
       \<and> total_amount t' x' =
           sum_list (map (\<lambda>l. unit_price l * of_int (quantity l)) (items_of t' (order_id x')))
       \<and> items_of (update_item e' i u t') (order_id x') = items_of t' (order_id x')
       \<and> total_amount (update_item e' i u t') x' = total_amount t' x'"
proof -
  let ?oid = "next_id (map order_id (orders t))"
  from create_order_created [OF nf conc pre ne val, of user_id] obtain new where
    v: "map line_view new = map (data_view ?oid) ds" and
    r: "create_order e user_id order' t =
      \<lparr>db = created user_id order' (uploaded_url e order') ds new t,
       logs = upload_log e order' @
              [(INFO, ''TechnicalReport created''), (INFO, ''Order created'')],
       s3_calls = upload_calls order',
       response = Success 201 (Some (new_order order' (uploaded_url e order') t))\<rparr>"
    by blast
  note nv = new_lines_view [OF v]
  note vd = validate_items_data [OF val]
  have old: "filter (\<lambda>l. oi_order_id l = ?oid) (order_items t) = []"
  proof -
    have "\<forall>l\<in>set (order_items t). oi_order_id l \<noteq> ?oid"
    proof
      fix l assume "l \<in> set (order_items t)"
      then have "oi_order_id l \<in> set (map order_id (orders t))" using fk by auto
      then show "oi_order_id l \<noteq> ?oid" using next_id_fresh [of "oi_order_id l" "map order_id (orders t)"] by simp
    qed
    then show ?thesis by (simp add: filter_empty_conv)
  qed
  have nw: "filter (\<lambda>l. oi_order_id l = ?oid) new = new"
    using nv by (simp add: filter_id_conv)
  have lines: "items_of (db (create_order e user_id order' t)) ?oid = new"
    by (simp add: r items_of_def old nw)
  have p1: "map (\<lambda>l. (oi_item_id l, quantity l)) new = map (\<lambda>r. (item_id r, req_quantity r)) (req_items order')"
    using nv vd by simp
  have p2: "\<forall>l\<in>set new. map_option price (items t (oi_item_id l)) = Some (unit_price l)"
  proof
    fix l assume "l \<in> set new"
    then obtain d where d: "d \<in> set ds" "d_item d = oi_item_id l" "d_unit_price d = unit_price l"
      using nv by blast
    then obtain it where "items t (d_item d) = Some it" "d_unit_price d = price it"
      using vd by blast
    then show "map_option price (items t (oi_item_id l)) = Some (unit_price l)"
      using d by simp
  qed
  have p3: "items_of (update_item e' i u t') (order_id x') = items_of t' (order_id x')"
    by (simp add: items_of_def update_item_keeps_orders)
  have p4: "total_amount (update_item e' i u t') x' = total_amount t' x'"
    by (simp add: total_amount_def p3)
  show ?thesis
    using p1 p2 p3 p4 total_amount_sum [of t' x'] by (simp add: lines) (simp add: r)
qed

theorem total_amount_from_price_snapshots_witness:
  "response (create_order calm 1 (build_order_data ''ORD-001'' 1 10) store) =
     Success 201 (Some \<lparr>order_id = 1, request_id = ''ORD-001'', technical_report_id = 1,
                         status = PENDING, image_url = None\<rparr>) \<and>
   map_option price (items store 1) = Some 50 \<and>
   map (\<lambda>l. (oi_item_id l, quantity l, unit_price l)) (items_of store_with_order 1) = [(1, 10, 50)] \<and>
   total_amount store_with_order
     \<lparr>order_id = 1, request_id = ''ORD-001'', technical_report_id = 1, status = PENDING,
      image_url = None\<rparr> = 500 \<and>
   map_option price
     (items (update_item calm 1 \<lparr>upd_name = None, upd_price = Some 75, upd_stock = None\<rparr>
               store_with_order) 1) = Some 75 \<and>
   map (\<lambda>l. (oi_item_id l, quantity l, unit_price l))
     (items_of (update_item calm 1 \<lparr>upd_name = None, upd_price = Some 75, upd_stock = None\<rparr>
                  store_with_order) 1) = [(1, 10, 50)] \<and>
   total_amount (update_item calm 1 \<lparr>upd_name = None, upd_price = Some 75, upd_stock = None\<rparr>
                   store_with_order)
     \<lparr>order_id = 1, request_id = ''ORD-001'', technical_report_id = 1, status = PENDING,
      image_url = None\<rparr> = 500"
proof -
  let ?o = "build_order_data ''ORD-001'' 1 10"
  let ?x = "\<lparr>order_id = 1, request_id = ''ORD-001'', technical_report_id = 1, status = PENDING,
      image_url = None\<rparr>"
  let ?u = "\<lparr>upd_name = None, upd_price = Some 75, upd_stock = None\<rparr>"
  have conc: "concurrent calm store = store" by (simp add: calm_def)
  have pre: "get_by_request_id store (req_request_id ?o) = None"
    by (simp add: get_by_request_id_def store_empty)
  have ne: "req_items ?o \<noteq> []" by (simp add: build_order_data_def)
  have fk: "\<forall>l\<in>set (order_items store). oi_order_id l \<in> order_id ` set (orders store)"
    by (simp add: store_empty)
  note th = total_amount_from_price_snapshots [OF calm_no_faults conc pre ne store_valid fk,
      of 1 store_with_order ?x calm 1 ?u]
  have lines: "items_of store_with_order 1 =
     [\<lparr>oi_id = 1, oi_order_id = 1, oi_item_id = 1, quantity = 10, unit_price = 50\<rparr>]"
    by (simp add: items_of_def store_with_order_rows)
  have pr: "map_option price (items (update_item calm 1 ?u store_with_order) 1) = Some 75"
    by (simp add: update_item_def DBManager_update_def set_fields_def open_session_def commit_def
          calm_def store_with_order_rows)
  from th have r: "response (create_order calm 1 ?o store) = Success 201 (Some ?x)"
    by (simp add: store_empty next_id_def build_order_data_def)
  from th have t1: "total_amount store_with_order ?x = 500"
    by (simp add: lines)
  from th have l2: "items_of (update_item calm 1 ?u store_with_order) 1 = items_of store_with_order 1"
    by simp
  from th have t2: "total_amount (update_item calm 1 ?u store_with_order) ?x = total_amount store_with_order ?x"
    by simp
  show ?thesis
    using r t1 t2 pr by (simp add: l2 lines store_def test_item_def)
qed

section \<open>The state machine\<close>

lemma update_order_status_rejected:
  assumes "get_order_row t oid = Some x"
    and "new \<notin> set (VALID_STATUS_TRANSITIONS (status x))"
  shows "update_order_status e oid new t =
     \<lparr>db = t, logs = [(WARNING, ''Invalid status transition'')], s3_calls = [],
      response = HTTPException 400 (order_invalid_status (status x) new)\<rparr>"
  using assms by (simp add: update_order_status_def)

lemma set_status_ok:
  "get_order_row t oid = Some x \<Longrightarrow>
   DBManager_update None (set_status oid new) \<lparr>committed = c, working = t\<rparr> =
     (\<lparr>committed = t\<lparr>orders := map (\<lambda>y. if order_id y = oid then y\<lparr>status := new\<rparr> else y) (orders t)\<rparr>,
       working = t\<lparr>orders := map (\<lambda>y. if order_id y = oid then y\<lparr>status := new\<rparr> else y) (orders t)\<rparr>\<rparr>,
      None)"
  by (simp add: DBManager_update_def set_status_def commit_def)

lemma update_order_status_ok:
  assumes nf: "\<forall>k. faults e k = None"
    and row: "get_order_row t oid = Some x"
    and ok: "new \<in> set (VALID_STATUS_TRANSITIONS (status x))"
    and fk: "\<forall>l\<in>set (items_of t oid). items t (oi_item_id l) \<noteq> None"
  shows "update_order_status e oid new t =
     \<lparr>db = t\<lparr>orders := map (\<lambda>y. if order_id y = oid then y\<lparr>status := new\<rparr> else y) (orders t),
              items := (if new = CANCELLED then restocked (items_of t oid) (items t) else items t)\<rparr>,
      logs = (if new = CANCELLED then [(INFO, ''Order cancelled, stock restored'')] else [])
             @ [(INFO, ''Order status updated'')],
      s3_calls = [],
      response = Success 200 (Some (x\<lparr>status := new\<rparr>))\<rparr>"
proof -
  let ?ls = "if new = CANCELLED then items_of t oid else []"
  let ?w = "t\<lparr>items := (if new = CANCELLED then restocked (items_of t oid) (items t) else items t)\<rparr>"
  have nc: "status x \<noteq> CANCELLED"
    using ok by (cases "status x") auto
  have fk': "\<forall>l\<in>set ?ls. items (working (open_session t)) (oi_item_id l) \<noteq> None"
    using fk by (simp add: open_session_def)
  have "\<exists>c. restore_stock (faults e) 0 ?ls (open_session t) = (\<lparr>committed = c, working = ?w\<rparr>, Inr None)"
    using restore_stock_ok [OF nf fk', of 0]
    by (auto simp: open_session_def option.map_ident)
  then obtain c where
    r: "restore_stock (faults e) 0 ?ls (open_session t) = (\<lparr>committed = c, working = ?w\<rparr>, Inr None)"
    by blast
  have row': "get_order_row ?w oid = Some x"
    using row by (simp add: get_order_row_def)
  have fin: "get_order_row (?w\<lparr>orders := map (\<lambda>y. if order_id y = oid then y\<lparr>status := new\<rparr> else y) (orders ?w)\<rparr>) oid
              = Some (x\<lparr>status := new\<rparr>)"
    using row by (simp add: get_order_row_def find_map_status)
  show ?thesis
    using row ok nc nf r set_status_ok [OF row', of new c] fin
    by (simp add: update_order_status_def Let_def split: if_splits)
qed

lemma update_order_status_not_400:
  assumes "get_order_row t oid = Some x"
    and "new \<in> set (VALID_STATUS_TRANSITIONS (status x))"
  shows "response (update_order_status e oid new t) \<noteq> HTTPException 400 d"
  using assms
  by (simp add: update_order_status_def Let_def split: prod.splits sum.splits option.splits)

text \<open>
  Claim C4. For an existing order, \<^verbatim>\<open>update_order_status\<close> allows exactly
  pending to in_progress or cancelled and in_progress to completed or cancelled: such a
  request is never answered with the invalid-transition error, and it succeeds with the
  new status when the store raises nothing. Every other pair, self-transitions and
  transitions out of completed and cancelled among them, is answered 400 with the
  current and the requested status, and the database is unchanged.
\<close>

theorem status_transition_table:
  assumes "get_order_row t oid = Some x"
  shows "((status x = PENDING \<and> (new = IN_PROGRESS \<or> new = CANCELLED)) \<or>
          (status x = IN_PROGRESS \<and> (new = COMPLETED \<or> new = CANCELLED))
          \<longrightarrow> (\<forall>d. response (update_order_status e oid new t) \<noteq> HTTPException 400 d) \<and>
              ((\<forall>k. faults e k = None) \<and>
               (\<forall>l\<in>set (items_of t oid). items t (oi_item_id l) \<noteq> None)
               \<longrightarrow> response (update_order_status e oid new t) = Success 200 (Some (x\<lparr>status := new\<rparr>)) \<and>
                   get_order_row (db (update_order_status e oid new t)) oid = Some (x\<lparr>status := new\<rparr>)))
       \<and> (\<not> ((status x = PENDING \<and> (new = IN_PROGRESS \<or> new = CANCELLED)) \<or>
              (status x = IN_PROGRESS \<and> (new = COMPLETED \<or> new = CANCELLED)))
          \<longrightarrow> update_order_status e oid new t =
                \<lparr>db = t, logs = [(WARNING, ''Invalid status transition'')], s3_calls = [],
                 response = HTTPException 400 (order_invalid_status (status x) new)\<rparr>)"
proof (intro conjI impI allI)
  fix d
  assume "(status x = PENDING \<and> (new = IN_PROGRESS \<or> new = CANCELLED)) \<or>
          (status x = IN_PROGRESS \<and> (new = COMPLETED \<or> new = CANCELLED))"
  then have "new \<in> set (VALID_STATUS_TRANSITIONS (status x))"
    by (simp add: VALID_STATUS_TRANSITIONS_iff)
  then show "response (update_order_status e oid new t) \<noteq> HTTPException 400 d"
    using update_order_status_not_400 [OF assms] by blast
next
  assume a: "(status x = PENDING \<and> (new = IN_PROGRESS \<or> new = CANCELLED)) \<or>
          (status x = IN_PROGRESS \<and> (new = COMPLETED \<or> new = CANCELLED))"
    and b: "(\<forall>k. faults e k = None) \<and> (\<forall>l\<in>set (items_of t oid). items t (oi_item_id l) \<noteq> None)"
  from a have ok: "new \<in> set (VALID_STATUS_TRANSITIONS (status x))"
    by (simp add: VALID_STATUS_TRANSITIONS_iff)
  from b have nf: "\<forall>k. faults e k = None"
    and fk: "\<forall>l\<in>set (items_of t oid). items t (oi_item_id l) \<noteq> None" by simp_all
  note r = update_order_status_ok [OF nf assms ok fk]
  show "response (update_order_status e oid new t) = Success 200 (Some (x\<lparr>status := new\<rparr>))"
    by (simp add: r)
  show "get_order_row (db (update_order_status e oid new t)) oid = Some (x\<lparr>status := new\<rparr>)"
    using assms by (simp add: r get_order_row_def find_map_status)
next
  assume "\<not> ((status x = PENDING \<and> (new = IN_PROGRESS \<or> new = CANCELLED)) \<or>
              (status x = IN_PROGRESS \<and> (new = COMPLETED \<or> new = CANCELLED)))"
  then have "new \<notin> set (VALID_STATUS_TRANSITIONS (status x))"
    by (simp add: VALID_STATUS_TRANSITIONS_iff)
  then show "update_order_status e oid new t =
                \<lparr>db = t, logs = [(WARNING, ''Invalid status transition'')], s3_calls = [],
                 response = HTTPException 400 (order_invalid_status (status x) new)\<rparr>"
    using update_order_status_rejected [OF assms] by blast
qed

theorem status_transition_table_witness:
  "get_order_row store_with_order 1 =
     Some \<lparr>order_id = 1, request_id = ''ORD-001'', technical_report_id = 1, status = PENDING,
           image_url = None\<rparr> \<and>
   response (update_order_status calm 1 CANCELLED store_with_order) =
     Success 200 (Some \<lparr>order_id = 1, request_id = ''ORD-001'', technical_report_id = 1,
                         status = CANCELLED, image_url = None\<rparr>) \<and>
   get_order_row (db (update_order_status calm 1 CANCELLED store_with_order)) 1 =
     Some \<lparr>order_id = 1, request_id = ''ORD-001'', technical_report_id = 1,
           status = CANCELLED, image_url = None\<rparr> \<and>
   update_order_status calm 1 COMPLETED store_with_order =
     \<lparr>db = store_with_order, logs = [(WARNING, ''Invalid status transition'')], s3_calls = [],
      response = HTTPException 400 (order_invalid_status PENDING COMPLETED)\<rparr> \<and>
   update_order_status calm 1 PENDING store_with_order =
     \<lparr>db = store_with_order, logs = [(WARNING, ''Invalid status transition'')], s3_calls = [],
      response = HTTPException 400 (order_invalid_status PENDING PENDING)\<rparr>"
  using status_transition_table [OF store_with_order_row, of CANCELLED calm]
    status_transition_table [OF store_with_order_row, of COMPLETED calm]
    status_transition_table [OF store_with_order_row, of PENDING calm]
    store_with_order_row calm_no_faults store_with_order_fk
  by simp

lemma update_order_status_keeps_items:
  "new \<noteq> CANCELLED \<Longrightarrow> items (db (update_order_status e oid new t)) = items t"
  by (auto simp: update_order_status_def Let_def DBManager_update_def set_status_def
        open_session_def commit_def rollback_def
      split: option.splits)

text \<open>
  Claim C5. Cancelling a pending or in-progress order gives back, for each order item
  once, its quantity to the stock of its item; a transition to any other status changes
  no stock; a second cancellation is answered 400 with the invalid-transition error and
  leaves the database as the first cancellation left it.
\<close>

theorem cancellation_restores_stock_once:
  assumes nf: "\<forall>k. faults e k = None"
    and row: "get_order_row t oid = Some x"
    and st: "status x = PENDING \<or> status x = IN_PROGRESS"
    and fk: "\<forall>l\<in>set (items_of t oid). items t (oi_item_id l) \<noteq> None"
  shows "items (db (update_order_status e oid CANCELLED t)) =
           (\<lambda>i. map_option
              (\<lambda>it. it\<lparr>stock := stock it +
                  sum_list (map quantity (filter (\<lambda>l. oi_item_id l = i) (items_of t oid)))\<rparr>)
              (items t i))
       \<and> (\<forall>e' new. new \<noteq> CANCELLED \<longrightarrow> items (db (update_order_status e' oid new t)) = items t)
       \<and> (\<forall>e'. update_order_status e' oid CANCELLED (db (update_order_status e oid CANCELLED t)) =
             \<lparr>db = db (update_order_status e oid CANCELLED t),
              logs = [(WARNING, ''Invalid status transition'')], s3_calls = [],
              response = HTTPException 400 (order_invalid_status CANCELLED CANCELLED)\<rparr>)"
proof -
  have ok: "CANCELLED \<in> set (VALID_STATUS_TRANSITIONS (status x))"
    using st by (auto simp: VALID_STATUS_TRANSITIONS_iff)
  note r = update_order_status_ok [OF nf row ok fk]
  have row2: "get_order_row (db (update_order_status e oid CANCELLED t)) oid = Some (x\<lparr>status := CANCELLED\<rparr>)"
    using row by (simp add: r get_order_row_def find_map_status)
  have again: "\<And>e'. update_order_status e' oid CANCELLED (db (update_order_status e oid CANCELLED t)) =
             \<lparr>db = db (update_order_status e oid CANCELLED t),
              logs = [(WARNING, ''Invalid status transition'')], s3_calls = [],
              response = HTTPException 400 (order_invalid_status CANCELLED CANCELLED)\<rparr>"
    using update_order_status_rejected [OF row2, of CANCELLED] by simp
  show ?thesis
    using again update_order_status_keeps_items by (simp add: r)
qed

theorem cancellation_restores_stock_once_witness:
  "map_option stock (items store 1) = Some 100 \<and>
   map_option stock (items store_with_order 1) = Some 90 \<and>
   map_option stock (items (db (update_order_status calm 1 CANCELLED store_with_order)) 1) = Some 100 \<and>
   items (db (update_order_status calm 1 IN_PROGRESS store_with_order)) = items store_with_order \<and>
   response (update_order_status calm 1 CANCELLED
               (db (update_order_status calm 1 CANCELLED store_with_order))) =
     HTTPException 400 (order_invalid_status CANCELLED CANCELLED) \<and>
   map_option stock
     (items (db (update_order_status calm 1 CANCELLED
                   (db (update_order_status calm 1 CANCELLED store_with_order)))) 1) = Some 100"
proof -
  have st: "status \<lparr>order_id = 1, request_id = ''ORD-001'', technical_report_id = 1, status = PENDING,
           image_url = None\<rparr> = PENDING \<or> status \<lparr>order_id = 1, request_id = ''ORD-001'', technical_report_id = 1, status = PENDING,
           image_url = None\<rparr> = IN_PROGRESS" by simp
  note th = cancellation_restores_stock_once [OF calm_no_faults store_with_order_row st store_with_order_fk]
  from th have a: "items (db (update_order_status calm 1 CANCELLED store_with_order)) 1 =
      map_option (\<lambda>it. it\<lparr>stock := stock it +
                  sum_list (map quantity (filter (\<lambda>l. oi_item_id l = 1) (items_of store_with_order 1)))\<rparr>)
              (items store_with_order 1)"
    by simp
  from th have b: "items (db (update_order_status calm 1 IN_PROGRESS store_with_order)) = items store_with_order"
    by simp
  from th have c: "update_order_status calm 1 CANCELLED (db (update_order_status calm 1 CANCELLED store_with_order)) =
             \<lparr>db = db (update_order_status calm 1 CANCELLED store_with_order),
              logs = [(WARNING, ''Invalid status transition'')], s3_calls = [],
              response = HTTPException 400 (order_invalid_status CANCELLED CANCELLED)\<rparr>"
    by blast
  have s: "map_option stock (items (db (update_order_status calm 1 CANCELLED store_with_order)) 1) = Some 100"
    by (simp add: a items_of_def store_with_order_rows test_item_def)
  show ?thesis
    using b s by (simp add: c store_with_order_rows store_def test_item_def)
qed

text \<open>
  The round trip: an undisturbed creation followed by an undisturbed cancellation of the
  new order leaves every item, and so every stock, as it was before the creation, also
  when several lines of the order name the same item.
\<close>

lemma new_lines_quantity:
  "map line_view new = map (data_view oid) ds \<Longrightarrow>
     sum_list (map quantity (filter (\<lambda>l. oi_item_id l = i) new)) =
     sum_list (map d_quantity (filter (\<lambda>d. d_item d = i) ds))"
proof (induction new arbitrary: ds)
  case Nil
  then show ?case by simp
next
  case (Cons l new)
  then obtain d ds' where ds: "ds = d # ds'" by (cases ds) auto
  have hd: "oi_item_id l = d_item d" "quantity l = d_quantity d"
    using Cons.prems ds by simp_all
  have tl: "map line_view new = map (data_view oid) ds'"
    using Cons.prems ds by simp
  show ?case
    using Cons.IH [OF tl] hd ds by simp
qed

lemma restocked_reserved:
  assumes "map line_view new = map (data_view oid) ds"
  shows "restocked new (reserved ds m) = m"
proof (rule ext)
  fix i
  show "restocked new (reserved ds m) i = m i"
    using new_lines_quantity [OF assms, of i]
    by (cases "m i") simp_all
qed

lemma create_then_cancel_restores_stock:
  assumes nf: "\<forall>k. faults e k = None"
    and conc: "concurrent e t = t"
    and pre: "get_by_request_id t (req_request_id order') = None"
    and ne: "req_items order' \<noteq> []"
    and val: "validate_items t (req_items order') = Inr ds"
    and fk: "\<forall>l\<in>set (order_items t). oi_order_id l \<in> order_id ` set (orders t)"
    and nf2: "\<forall>k. faults e2 k = None"
  shows "items (db (update_order_status e2 (next_id (map order_id (orders t))) CANCELLED
                      (db (create_order e user_id order' t)))) = items t"
proof -
  let ?oid = "next_id (map order_id (orders t))"
  let ?x = "new_order order' (uploaded_url e order') t"
  from create_order_created [OF nf conc pre ne val, of user_id] obtain new where
    v: "map line_view new = map (data_view ?oid) ds" and
    r: "create_order e user_id order' t =
      \<lparr>db = created user_id order' (uploaded_url e order') ds new t,
       logs = upload_log e order' @
              [(INFO, ''TechnicalReport created''), (INFO, ''Order created'')],
       s3_calls = upload_calls order',
       response = Success 201 (Some ?x)\<rparr>"
    by blast
  let ?d = "created user_id order' (uploaded_url e order') ds new t"
  note nv = new_lines_view [OF v]
  note vd = validate_items_data [OF val]
  have fresh: "\<forall>y\<in>set (orders t). order_id y \<noteq> ?oid"
    using next_id_fresh [of _ "map order_id (orders t)"] by fastforce
  have row: "get_order_row ?d ?oid = Some ?x"
    using fresh by (simp add: get_order_row_def find_append_fresh)
  have old: "filter (\<lambda>l. oi_order_id l = ?oid) (order_items t) = []"
  proof -
    have "\<forall>l\<in>set (order_items t). oi_order_id l \<noteq> ?oid"
    proof
      fix l assume "l \<in> set (order_items t)"
      then have "oi_order_id l \<in> set (map order_id (orders t))" using fk by auto
      then show "oi_order_id l \<noteq> ?oid"
        using next_id_fresh [of "oi_order_id l" "map order_id (orders t)"] by simp
    qed
    then show ?thesis by (simp add: filter_empty_conv)
  qed
  have nw: "filter (\<lambda>l. oi_order_id l = ?oid) new = new"
    using nv by (simp add: filter_id_conv)
  have lines: "items_of ?d ?oid = new"
    by (simp add: items_of_def old nw)
  have ex: "\<forall>l\<in>set (items_of ?d ?oid). items ?d (oi_item_id l) \<noteq> None"
  proof
    fix l assume "l \<in> set (items_of ?d ?oid)"
    then have "l \<in> set new" by (simp add: lines)
    then obtain d where d: "d \<in> set ds" "d_item d = oi_item_id l" using nv by blast
    then obtain it where "items t (d_item d) = Some it" using vd by blast
    then show "items ?d (oi_item_id l) \<noteq> None" using d by simp
  qed
  have ok: "CANCELLED \<in> set (VALID_STATUS_TRANSITIONS (status ?x))" by simp
  have "items (db (update_order_status e2 ?oid CANCELLED ?d)) = restocked new (reserved ds (items t))"
    using update_order_status_ok [OF nf2 row ok ex] lines by simp
  then show ?thesis
    using restocked_reserved [OF v, of "items t"] by (simp add: r)
qed

section \<open>Where the writes are not one transaction\<close>

text \<open>
  \<^verbatim>\<open>DBManager.update\<close> commits the session. The update of the first item in
  \<^verbatim>\<open>create_order\<close> therefore commits the report, the order and the first order item, and
  each update in \<^verbatim>\<open>update_order_status\<close> commits on its own; the \<^verbatim>\<open>db.rollback()\<close>
  of the exception handlers only undoes what came after the last commit.
\<close>

text \<open>
  Claim C1 (creation is all-or-nothing) fails on the code. A valid request with three
  lines whose third stock update raises is answered 500, yet the report, the order, two
  order items and two stock decrements remain.
\<close>

theorem creation_commits_before_failure:
  "response (create_order (failing_at 4 SQLAlchemyError) 1 three_lines store)
     = HTTPException 500 (database_error ''Failed to create order'') \<and>
   map title (reports (db (create_order (failing_at 4 SQLAlchemyError) 1 three_lines store)))
     = [''Mantenimiento preventivo''] \<and>
   map request_id (orders (db (create_order (failing_at 4 SQLAlchemyError) 1 three_lines store)))
     = [''ORD-003''] \<and>
   map oi_item_id (order_items (db (create_order (failing_at 4 SQLAlchemyError) 1 three_lines store)))
     = [1, 2] \<and>
   map (\<lambda>i. map_option stock (items (db (create_order (failing_at 4 SQLAlchemyError) 1 three_lines store)) i)) [1, 2, 3]
     = [Some 90, Some 90, Some 100]"
  by (simp add: model_defs fixture_defs three_lines_def)

text \<open>
  Claim C3 (stock never negative) fails on the code. Each line is validated on its own
  against the stock of its item, so a request with two lines of 60 for the same item
  with 100 in stock passes validation, is answered 201 and leaves the stock at -20.
\<close>

theorem same_item_twice_drives_stock_negative:
  "response (create_order calm 1 same_item_twice store)
     = Success 201 (Some \<lparr>order_id = 1, request_id = ''ORD-004'', technical_report_id = 1,
                          status = PENDING, image_url = None\<rparr>) \<and>
   map_option stock (items store 1) = Some 100 \<and>
   map_option stock (items (db (create_order calm 1 same_item_twice store)) 1) = Some (- 20)"
  by (simp add: model_defs fixture_defs same_item_twice_def)

text \<open>
  What does hold: when the lines of the request name pairwise different items, an
  undisturbed creation from non-negative stocks leaves every stock non-negative.
\<close>

lemma filter_distinct_key_cases:
  "distinct (map f xs) \<Longrightarrow>
     filter (\<lambda>d. f d = i) xs = [] \<or> (\<exists>d\<in>set xs. filter (\<lambda>d. f d = i) xs = [d])"
proof (induction xs)
  case Nil
  then show ?case by simp
next
  case (Cons a xs)
  show ?case
  proof (cases "f a = i")
    case True
    then have "i \<notin> f ` set xs" using Cons.prems by auto
    then have "filter (\<lambda>d. f d = i) xs = []" by (auto simp: filter_empty_conv)
    then show ?thesis using True by simp
  next
    case False
    then show ?thesis using Cons by auto
  qed
qed

lemma distinct_items_keep_stock_nonnegative:
  assumes nf: "\<forall>k. faults e k = None"
    and conc: "concurrent e t = t"
    and pre: "get_by_request_id t (req_request_id order') = None"
    and ne: "req_items order' \<noteq> []"
    and val: "validate_items t (req_items order') = Inr ds"
    and dist: "distinct (map item_id (req_items order'))"
    and pos: "\<forall>i it. items t i = Some it \<longrightarrow> 0 \<le> stock it"
    and after: "items (db (create_order e user_id order' t)) i = Some it'"
  shows "0 \<le> stock it'"
proof -
  from create_order_created [OF nf conc pre ne val, of user_id] obtain new where
    r: "create_order e user_id order' t =
      \<lparr>db = created user_id order' (uploaded_url e order') ds new t,
       logs = upload_log e order' @
              [(INFO, ''TechnicalReport created''), (INFO, ''Order created'')],
       s3_calls = upload_calls order',
       response = Success 201 (Some (new_order order' (uploaded_url e order') t))\<rparr>"
    by blast
  note vd = validate_items_data [OF val]
  have "map d_item ds = map item_id (req_items order')"
  proof -
    have "map fst (map (\<lambda>d. (d_item d, d_quantity d)) ds) =
          map fst (map (\<lambda>x. (item_id x, req_quantity x)) (req_items order'))"
      using vd by simp
    then show ?thesis by (simp add: comp_def)
  qed
  then have dd: "distinct (map d_item ds)" using dist by simp
  from after obtain it where it: "items t i = Some it"
    and st: "stock it' = stock it - sum_list (map d_quantity (filter (\<lambda>d. d_item d = i) ds))"
    by (auto simp: r)
  from filter_distinct_key_cases [OF dd, of i] show ?thesis
  proof
    assume "filter (\<lambda>d. d_item d = i) ds = []"
    then show ?thesis using st pos it by simp
  next
    assume "\<exists>d\<in>set ds. filter (\<lambda>d. d_item d = i) ds = [d]"
    then obtain d where d: "d \<in> set ds" "filter (\<lambda>d. d_item d = i) ds = [d]" by blast
    then have "d \<in> set (filter (\<lambda>d. d_item d = i) ds)" by simp
    then have "d_item d = i" by simp
    then have "d_quantity d \<le> stock it" using vd d(1) it by auto
    then show ?thesis using st d(2) by simp
  qed
qed

text \<open>
  Claim C6 (a persistence failure other than the race is surfaced as a storage error)
  fails on the code. When the write of the second line raises \<^verbatim>\<open>IntegrityError\<close>,
  the order is already committed, the handler finds it by \<^verbatim>\<open>request_id\<close> and answers
  200 with it, although no order with this \<^verbatim>\<open>request_id\<close> existed before the call and
  the second line was never stored.
\<close>

theorem integrity_fault_after_commit_returns_200:
  "response (create_order (failing_at 3 IntegrityError) 1 two_lines store)
     = Success 200 (Some \<lparr>order_id = 1, request_id = ''ORD-002'', technical_report_id = 1,
                          status = PENDING, image_url = None\<rparr>) \<and>
   get_by_request_id store ''ORD-002'' = None \<and>
   map oi_item_id (order_items (db (create_order (failing_at 3 IntegrityError) 1 two_lines store))) = [1] \<and>
   map (\<lambda>i. map_option stock (items (db (create_order (failing_at 3 IntegrityError) 1 two_lines store)) i)) [1, 2]
     = [Some 90, Some 100]"
  by (simp add: model_defs fixture_defs two_lines_def)

text \<open>
  Claim C7 (status update and stock restoration are atomic) fails on the code. When the
  update of the order raises after the stock of its item was given back, the request is
  answered 500 and the order stays pending, but the stock stays restored; cancelling
  again then restores it a second time.
\<close>

theorem cancellation_fault_keeps_restored_stock:
  "response (update_order_status (failing_at 1 SQLAlchemyError) 1 CANCELLED store_with_order)
     = HTTPException 500 (database_error ''Failed to update order status'') \<and>
   map status (orders (db (update_order_status (failing_at 1 SQLAlchemyError) 1 CANCELLED store_with_order)))
     = [PENDING] \<and>
   map_option stock (items store_with_order 1) = Some 90 \<and>
   map_option stock (items (db (update_order_status (failing_at 1 SQLAlchemyError) 1 CANCELLED store_with_order)) 1)
     = Some 100 \<and>
   map_option stock (items (db (update_order_status calm 1 CANCELLED
      (db (update_order_status (failing_at 1 SQLAlchemyError) 1 CANCELLED store_with_order)))) 1)
     = Some 110"
  by (simp add: model_defs fixture_defs)

end
